theory Spec2Isabelle
  imports Complex_Main "HOL-Library.AList" "HOL-Library.Sublist"
begin

section \<open>Python values\<close>

text \<open>
  A Python \<open>str\<close> is a sequence of Unicode code points; it is modelled as a list of
  natural numbers. \<open>str\<close> turns an ASCII literal of this theory into such a list.
  A \<open>bytes\<close> object (a response body) is a list of 8-bit characters.
\<close>

type_synonym pystr = "nat list"

type_synonym bytes = "char list"

definition str :: "string \<Rightarrow> pystr" where
  "str s = map of_char s"

subsection \<open>\<open>json.dumps\<close> of a string\<close>

text \<open>
  \<open>json.dumps(s)\<close> for a \<open>str\<close> with the default \<open>ensure_ascii=True\<close>: the
  surrounding double quotes, a two-character escape for backslash, double quote, backspace,
  form feed, newline, carriage return and tab, the character itself for the other printable
  ASCII characters (space to tilde), and \<open>\uXXXX\<close> (four lower-case hexadecimal digits,
  a surrogate pair above the basic plane) for everything else.
\<close>

definition hexdigit :: "nat \<Rightarrow> nat" where
  "hexdigit d = (if d < 10 then 48 + d else 87 + d)"

definition u_escape :: "nat \<Rightarrow> pystr" where
  "u_escape c =
     [92, 117, hexdigit (c div 4096 mod 16), hexdigit (c div 256 mod 16),
      hexdigit (c div 16 mod 16), hexdigit (c mod 16)]"

definition ascii_escape_unichar :: "nat \<Rightarrow> pystr" where
  "ascii_escape_unichar c =
     (if c = 92 then [92, 92]
      else if c = 34 then [92, 34]
      else if c = 8 then [92, 98]
      else if c = 12 then [92, 102]
      else if c = 10 then [92, 110]
      else if c = 13 then [92, 114]
      else if c = 9 then [92, 116]
      else if 32 \<le> c \<and> c \<le> 126 then [c]
      else if 65536 \<le> c then
        u_escape (55296 + (c - 65536) div 1024 mod 1024) @ u_escape (56320 + (c - 65536) mod 1024)
      else u_escape c)"

definition json_dumps :: "pystr \<Rightarrow> pystr" where
  "json_dumps s = [34] @ concat (map ascii_escape_unichar s) @ [34]"

subsection \<open>Substring test and \<open>str.replace(old, new, 1)\<close>\<close>

fun contains :: "'a list \<Rightarrow> 'a list \<Rightarrow> bool" where
  "contains sub [] = (sub = [])"
| "contains sub (c # cs) = (prefix sub (c # cs) \<or> contains sub cs)"

fun replace_first :: "'a list \<Rightarrow> 'a list \<Rightarrow> 'a list \<Rightarrow> 'a list" where
  "replace_first old new [] = (if old = [] then new else [])"
| "replace_first old new (c # cs) =
     (if prefix old (c # cs) then new @ drop (length old) (c # cs)
      else c # replace_first old new cs)"

section \<open>Config Mutator\<close>

text \<open>
  \<open>swap_url_in_config(old_url, new_url)\<close> reads the config file, looks for the serialized
  old URL and, when it is there, writes the file back with its first occurrence replaced.
  The file is modelled by the text that \<open>f.read()\<close> returns; the function takes that text
  and returns its result together with the text the file holds afterwards. Reading and
  writing the file are taken to succeed, so the temporary file and the rename amount to
  one assignment of the new text; the encoding of the text on disk, with what text-mode
  input and output do to line endings, is below the model.
\<close>

definition swap_url_in_config :: "pystr \<Rightarrow> pystr \<Rightarrow> pystr \<Rightarrow> bool \<times> pystr" where
  "swap_url_in_config old_url new_url text =
     (let old_json = json_dumps old_url;
          new_json = json_dumps new_url
      in if \<not> contains old_json text then (False, text)
         else (True, replace_first old_json new_json text))"

section \<open>Feed Prober\<close>

subsection \<open>Decoded payloads\<close>

text \<open>
  The value \<open>json.loads\<close> returns. An object is the list of its items in order (its keys
  are distinct, as a \<open>dict\<close>'s are); a number is an \<open>int\<close> or a \<open>float\<close>, the latter
  idealised as a rational (the non-standard literals \<open>NaN\<close> and \<open>Infinity\<close> are left out).
\<close>

datatype json =
    JNull
  | JBool bool
  | JInt int
  | JFloat rat
  | JStr pystr
  | JArr "json list"
  | JObj "(pystr \<times> json) list"

text \<open>The element tree \<open>ET.fromstring\<close> returns: tag, text and children of each element.\<close>

datatype xml = Element (tag: pystr) (etext: "pystr option") (children: "xml list")

subsection \<open>Exceptions, error messages and results\<close>

datatype pytype = TNone | TBool | TInt | TFloat | TStr | TList | TDict

text \<open>
  The exceptions the modelled code can raise and not catch itself:
  \<open>AttributeError t\<close> is ``\<open>'t' object has no attribute 'get'\<close>'', \<open>TypeError t\<close> is
  ``\<open>object of type 't' has no len()\<close>'', and \<open>JSONDecodeError\<close> is raised by
  \<open>json.load\<close> on the config file.
\<close>

datatype exn = AttributeError pytype | TypeError pytype | JSONDecodeError

text \<open>
  The \<open>error\<close> string of a result, one constructor per message of the source, holding the
  values its f-string prints: \<open>unreachable: <exception type>\<close>, \<open>empty response\<close>,
  \<open>JSON parse error\<close>, \<open>empty feed (0 articles)\<close>,
  \<open>stale feed (newest <age_hours>h, max <max_age_hours>h)\<close>, \<open>XML parse error\<close> and the
  scheduler's \<open>exception: <e>\<close>. (\<open>encoding error\<close> cannot occur: decoding as latin-1
  accepts every byte string.)
\<close>

datatype err =
    Unreachable pystr
  | Empty_response
  | JSON_parse_error
  | Empty_feed
  | Stale_feed rat rat
  | XML_parse_error
  | Exception_error exn

record result =
  ok :: bool
  error :: "err option"
  article_count :: nat
  newest_age_hours :: "rat option"

subsection \<open>The standard library and the outside world\<close>

text \<open>
  The config document as \<open>json.load\<close> returns it: the source entries under
  \<open>news_sources.sina_api\<close> and under \<open>news_sources.rss_feeds\<close> (a missing key is the empty
  list). An entry has its \<open>name\<close> and its \<open>url\<close>; \<open>max_age_hours\<close> may be absent.
\<close>

record source =
  src_name :: pystr
  src_url :: pystr
  src_max_age_hours :: "rat option"

record config =
  sina_api :: "source list"
  rss_feeds :: "source list"

text \<open>
  The library functions the code calls on text are parameters of the model, each returning
  \<open>None\<close> where the Python function raises:
  \<^item> \<open>json_load_config\<close>: \<open>json.load\<close> of the config file, as the typed source lists;
  \<^item> \<open>json_loads\<close>: \<open>json.loads(raw.decode("utf-8"))\<close>;
  \<^item> \<open>int_str\<close>: \<open>int(s)\<close> for a \<open>str\<close> (\<open>None\<close> is \<open>ValueError\<close>);
  \<^item> \<open>xml_fromstring\<close>: decoding the body (UTF-8, else latin-1) and \<open>ET.fromstring\<close> of
    its UTF-8 encoding (\<open>None\<close> is \<open>ParseError\<close>);
  \<^item> \<open>parsedate_to_datetime\<close> and \<open>fromisoformat\<close>: the two date parsers;
  \<^item> \<open>timestamp\<close>: \<open>dt.timestamp()\<close>, seconds since the epoch, idealised as a rational;
  \<^item> \<open>isdecimal\<close>: the characters the regular expression class \<open>\d\<close> matches.
\<close>

record 'dt pylib =
  json_load_config :: "pystr \<Rightarrow> config option"
  json_loads :: "bytes \<Rightarrow> json option"
  int_str :: "pystr \<Rightarrow> int option"
  xml_fromstring :: "bytes \<Rightarrow> xml option"
  parsedate_to_datetime :: "pystr \<Rightarrow> 'dt option"
  fromisoformat :: "pystr \<Rightarrow> 'dt option"
  timestamp :: "'dt \<Rightarrow> rat"
  isdecimal :: "nat \<Rightarrow> bool"

text \<open>
  What one call of \<open>check_source\<close> sees of the outside world: the answer to its HTTP
  request (\<open>Inl\<close> the type name of the exception \<open>urlopen\<close> or \<open>read\<close> raised, \<open>Inr\<close> the
  body) and the value of \<open>time.time()\<close>, idealised as a rational.
\<close>

record env =
  urlopen :: "pystr \<Rightarrow> pystr + bytes"
  time_now :: rat

subsection \<open>Date Normalizer\<close>

text \<open>The characters \<open>str.strip()\<close> removes and \<open>\s\<close> matches: Unicode whitespace.\<close>

definition isspace :: "nat \<Rightarrow> bool" where
  "isspace c \<longleftrightarrow>
     (9 \<le> c \<and> c \<le> 13) \<or> (28 \<le> c \<and> c \<le> 32) \<or> c = 133 \<or> c = 160 \<or> c = 5760 \<or>
     (8192 \<le> c \<and> c \<le> 8202) \<or> c = 8232 \<or> c = 8233 \<or> c = 8239 \<or> c = 8287 \<or> c = 12288"

definition strip :: "pystr \<Rightarrow> pystr" where
  "strip s = rev (dropWhile isspace (rev (dropWhile isspace s)))"

text \<open>
  \<open>re.sub(r'\s*([+-]\d{4})$', r' \1', s)\<close>: when \<open>s\<close> ends with a sign and four digits,
  the whole run of whitespace before the sign (possibly empty) is replaced by one space;
  otherwise \<open>s\<close> is returned as it is. (The argument is stripped, so \<open>$\<close> is the end of
  the string.)
\<close>

definition repair_offset :: "'dt pylib \<Rightarrow> pystr \<Rightarrow> pystr" where
  "repair_offset L s =
     (let n = length s
      in case drop (n - 5) s of
           [] \<Rightarrow> s
         | sign # digits \<Rightarrow>
             if 5 \<le> n \<and> (sign = 43 \<or> sign = 45) \<and> list_all (isdecimal L) digits
             then rev (dropWhile isspace (rev (take (n - 5) s))) @ [32] @ sign # digits
             else s)"

definition parse_date_flexible :: "'dt pylib \<Rightarrow> pystr \<Rightarrow> 'dt option" where
  "parse_date_flexible L date_str =
     (let s = strip date_str
      in if s = [] then None
         else case parsedate_to_datetime L s of
           Some dt \<Rightarrow> Some dt
         | None \<Rightarrow>
             (case fromisoformat L s of
                Some dt \<Rightarrow> Some dt
              | None \<Rightarrow>
                  (let cleaned = repair_offset L s
                   in if cleaned \<noteq> s then fromisoformat L cleaned else None)))"

subsection \<open>Operations on decoded JSON\<close>

fun type_of :: "json \<Rightarrow> pytype" where
  "type_of JNull = TNone"
| "type_of (JBool b) = TBool"
| "type_of (JInt n) = TInt"
| "type_of (JFloat q) = TFloat"
| "type_of (JStr s) = TStr"
| "type_of (JArr xs) = TList"
| "type_of (JObj kvs) = TDict"

text \<open>Truth value of a decoded value, as \<open>if x:\<close> and \<open>not x\<close> test it.\<close>

fun truthy :: "json \<Rightarrow> bool" where
  "truthy JNull = False"
| "truthy (JBool b) = b"
| "truthy (JInt n) = (n \<noteq> 0)"
| "truthy (JFloat q) = (q \<noteq> 0)"
| "truthy (JStr s) = (s \<noteq> [])"
| "truthy (JArr xs) = (xs \<noteq> [])"
| "truthy (JObj kvs) = (kvs \<noteq> [])"

text \<open>\<open>x.get(key, default)\<close>: only a \<open>dict\<close> has the method.\<close>

fun py_get :: "json \<Rightarrow> pystr \<Rightarrow> json \<Rightarrow> exn + json" where
  "py_get (JObj kvs) key dflt = Inr (case map_of kvs key of Some v \<Rightarrow> v | None \<Rightarrow> dflt)"
| "py_get j key dflt = Inl (AttributeError (type_of j))"

text \<open>
  The items of a value that has a length, in the order a \<open>for\<close> loop visits them (the
  elements of a list, the characters of a string, the keys of a dict), so that \<open>len(x)\<close>
  is the length of this list; \<open>len\<close> raises \<open>TypeError\<close> for every other value.
\<close>

fun py_items :: "json \<Rightarrow> exn + json list" where
  "py_items (JArr xs) = Inr xs"
| "py_items (JStr s) = Inr (map (\<lambda>c. JStr [c]) s)"
| "py_items (JObj kvs) = Inr (map (\<lambda>kv. JStr (fst kv)) kvs)"
| "py_items j = Inl (TypeError (type_of j))"

definition trunc :: "rat \<Rightarrow> int" where
  "trunc q = (if 0 \<le> q then \<lfloor>q\<rfloor> else \<lceil>q\<rceil>)"

text \<open>
  \<open>int(ctime)\<close> inside \<open>try ... except (ValueError, TypeError): pass\<close>: \<open>None\<close> when one of
  the two is raised and the item is skipped.
\<close>

fun py_int :: "'dt pylib \<Rightarrow> json \<Rightarrow> int option" where
  "py_int L (JInt n) = Some n"
| "py_int L (JBool b) = Some (if b then 1 else 0)"
| "py_int L (JFloat q) = Some (trunc q)"
| "py_int L (JStr s) = int_str L s"
| "py_int L j = None"

text \<open>The freshness loop over the articles of a JSON payload (\<open>newest_ts\<close> is the accumulator).\<close>

fun newest_ctime :: "'dt pylib \<Rightarrow> json list \<Rightarrow> int option \<Rightarrow> exn + int option" where
  "newest_ctime L [] newest_ts = Inr newest_ts"
| "newest_ctime L (item # items) newest_ts =
     (case py_get item (str ''ctime'') (JStr []) of
        Inl e \<Rightarrow> Inl e
      | Inr ctime \<Rightarrow>
          if truthy ctime then
            (case py_int L ctime of
               None \<Rightarrow> newest_ctime L items newest_ts
             | Some ts \<Rightarrow>
                 newest_ctime L items
                   (case newest_ts of
                      None \<Rightarrow> Some ts
                    | Some m \<Rightarrow> if m < ts then Some ts else Some m))
          else newest_ctime L items newest_ts)"

subsection \<open>Operations on the element tree\<close>

text \<open>All descendants of an element in document order: what the path \<open>.//tag\<close> searches.\<close>

fun descendants :: "xml \<Rightarrow> xml list" where
  "descendants (Element t x cs) = concat (map (\<lambda>c. c # descendants c) cs)"

definition findall :: "pystr \<Rightarrow> xml \<Rightarrow> xml list" where
  "findall t elem = filter (\<lambda>e. tag e = t) (descendants elem)"

text \<open>
  \<open>item.findtext(t)\<close>: the text of the first child with tag \<open>t\<close> (the empty string when
  that child has no text), \<open>None\<close> without such a child.
\<close>

definition findtext :: "pystr \<Rightarrow> xml \<Rightarrow> pystr option" where
  "findtext t e =
     (case find (\<lambda>c. tag c = t) (children e) of
        None \<Rightarrow> None
      | Some c \<Rightarrow> Some (case etext c of None \<Rightarrow> [] | Some s \<Rightarrow> s))"

definition atom_ns :: pystr where
  "atom_ns = str ''{http://www.w3.org/2005/Atom}''"

text \<open>\<open>a or b\<close> where \<open>a\<close> is a string or \<open>None\<close>: \<open>a\<close> when it is a non-empty string.\<close>

definition or_else :: "pystr option \<Rightarrow> pystr \<Rightarrow> pystr" where
  "or_else a b = (case a of None \<Rightarrow> b | Some s \<Rightarrow> if s \<noteq> [] then s else b)"

definition pub_str :: "xml \<Rightarrow> pystr" where
  "pub_str item =
     or_else (findtext (str ''pubDate'') item)
       (or_else (findtext (atom_ns @ str ''published'') item)
          (or_else (findtext (atom_ns @ str ''updated'') item) []))"

text \<open>The freshness loop over the items of a feed.\<close>

fun newest_pub :: "'dt pylib \<Rightarrow> xml list \<Rightarrow> rat option \<Rightarrow> rat option" where
  "newest_pub L [] newest_ts = newest_ts"
| "newest_pub L (item # items) newest_ts =
     (if strip (pub_str item) \<noteq> [] then
        (case parse_date_flexible L (pub_str item) of
           None \<Rightarrow> newest_pub L items newest_ts
         | Some dt \<Rightarrow>
             newest_pub L items
               (case newest_ts of
                  None \<Rightarrow> Some (timestamp L dt)
                | Some m \<Rightarrow> if m < timestamp L dt then Some (timestamp L dt) else Some m))
      else newest_pub L items newest_ts)"

subsection \<open>\<open>check_source\<close>\<close>

definition FAIL_THRESHOLD :: int where
  "FAIL_THRESHOLD = 3"

definition DEFAULT_MAX_AGE_HOURS :: rat where
  "DEFAULT_MAX_AGE_HOURS = 72"

text \<open>
  \<open>round(x, 1)\<close> on the idealised number: to the nearest tenth, a tie to the even one.
\<close>

definition round_half_even :: "rat \<Rightarrow> int" where
  "round_half_even x =
     (let f = \<lfloor>x\<rfloor>; r = x - of_int f
      in if r < 1 / 2 then f else if 1 / 2 < r then f + 1 else if even f then f else f + 1)"

definition round1 :: "rat \<Rightarrow> rat" where
  "round1 x = of_int (round_half_even (x * 10)) / 10"

definition failure :: "err \<Rightarrow> result" where
  "failure e = \<lparr>ok = False, error = Some e, article_count = 0, newest_age_hours = None\<rparr>"

text \<open>
  The end of both branches of \<open>check_source\<close>, which the source writes out twice: with
  \<open>article_count\<close> already stored, the age of the newest article is computed when some
  article gave a timestamp, stored rounded, and compared with the threshold; a result
  that is not stale is \<open>ok\<close>.
\<close>

definition freshness :: "rat \<Rightarrow> nat \<Rightarrow> rat option \<Rightarrow> rat \<Rightarrow> result" where
  "freshness now_ts n newest_ts max_age_hours =
     (case newest_ts of
        None \<Rightarrow> \<lparr>ok = True, error = None, article_count = n, newest_age_hours = None\<rparr>
      | Some ts \<Rightarrow>
          (let age_hours = (now_ts - ts) / 3600
           in if max_age_hours < age_hours
              then \<lparr>ok = False, error = Some (Stale_feed age_hours max_age_hours),
                    article_count = n, newest_age_hours = Some (round1 age_hours)\<rparr>
              else \<lparr>ok = True, error = None,
                    article_count = n, newest_age_hours = Some (round1 age_hours)\<rparr>))"

text \<open>\<open>data.get("result", {}).get("data", [])\<close>.\<close>

definition articles_of :: "json \<Rightarrow> exn + json" where
  "articles_of data =
     (case py_get data (str ''result'') (JObj []) of
        Inl e \<Rightarrow> Inl e
      | Inr r \<Rightarrow> py_get r (str ''data'') (JArr []))"

definition check_json :: "'dt pylib \<Rightarrow> rat \<Rightarrow> bytes \<Rightarrow> rat \<Rightarrow> exn + result" where
  "check_json L now_ts raw max_age_hours =
     (case json_loads L raw of
        None \<Rightarrow> Inr (failure JSON_parse_error)
      | Some data \<Rightarrow>
          (case articles_of data of
             Inl e \<Rightarrow> Inl e
           | Inr articles \<Rightarrow>
               if \<not> truthy articles then Inr (failure Empty_feed)
               else
                 (case py_items articles of
                    Inl e \<Rightarrow> Inl e
                  | Inr items \<Rightarrow>
                      (case newest_ctime L items None of
                         Inl e \<Rightarrow> Inl e
                       | Inr newest_ts \<Rightarrow>
                           Inr (freshness now_ts (length items) (map_option of_int newest_ts)
                                  max_age_hours)))))"

definition check_xml :: "'dt pylib \<Rightarrow> rat \<Rightarrow> bytes \<Rightarrow> rat \<Rightarrow> result" where
  "check_xml L now_ts raw max_age_hours =
     (case xml_fromstring L raw of
        None \<Rightarrow> failure XML_parse_error
      | Some elem \<Rightarrow>
          (let items0 = findall (str ''item'') elem;
               items = (if items0 = [] then findall (atom_ns @ str ''entry'') elem else items0)
           in if items = [] then failure Empty_feed
              else freshness now_ts (length items) (newest_pub L items None) max_age_hours))"

text \<open>
  \<open>check_source(name, url, source_type, max_age_hours)\<close>. The source returns the pair of
  \<open>name\<close> and the result; both callers drop the name, and so does the model. \<open>Inl\<close> is an
  exception that leaves the function.
\<close>

definition check_source ::
  "'dt pylib \<Rightarrow> env \<Rightarrow> pystr \<Rightarrow> pystr \<Rightarrow> pystr \<Rightarrow> rat \<Rightarrow> exn + result" where
  "check_source L E name url source_type max_age_hours =
     (case urlopen E url of
        Inl ty \<Rightarrow> Inr (failure (Unreachable ty))
      | Inr raw \<Rightarrow>
          if raw = [] then Inr (failure Empty_response)
          else if source_type = str ''json'' then check_json L (time_now E) raw max_age_hours
          else Inr (check_xml L (time_now E) raw max_age_hours))"

section \<open>One check cycle: \<open>run_checks\<close>\<close>

subsection \<open>Fallback registry and task list\<close>

text \<open>
  \<open>FALLBACK_URLS\<close>, keyed by source name. The names are Huxiu, ITzhijia, 36Ke, Shaoshupai,
  Taimeiti, Jiemian Xinwen, Solidot and Nanfang Zhoumo, written by their code points.
\<close>

definition FALLBACK_URLS :: "(pystr \<times> pystr) list" where
  "FALLBACK_URLS =
     [([0x864E, 0x55C5], str ''https://rsshub.rssforever.com/huxiu/article''),
      ([0x49, 0x54, 0x4E4B, 0x5BB6], str ''https://rsshub.rssforever.com/ithome''),
      ([0x33, 0x36, 0x6C2A], str ''https://rsshub.rssforever.com/36kr/news''),
      ([0x5C11, 0x6570, 0x6D3E], str ''https://rsshub.rssforever.com/sspai/matrix''),
      ([0x949B, 0x5A92, 0x4F53], str ''https://rsshub.rssforever.com/tmtpost/recommend''),
      ([0x754C, 0x9762, 0x65B0, 0x95FB], str ''https://rsshub.rssforever.com/jiemian/list/4''),
      (str ''Solidot'', str ''https://rsshub.rssforever.com/solidot''),
      ([0x5357, 0x65B9, 0x5468, 0x672B], str ''https://rsshub.rssforever.com/infzm/2'')]"

text \<open>A task is \<open>(name, url, source_type, max_age)\<close>.\<close>

type_synonym task = "pystr \<times> pystr \<times> pystr \<times> rat"

definition max_age_of :: "source \<Rightarrow> rat" where
  "max_age_of src =
     (case src_max_age_hours src of None \<Rightarrow> DEFAULT_MAX_AGE_HOURS | Some h \<Rightarrow> h)"

definition build_tasks :: "config \<Rightarrow> task list" where
  "build_tasks cfg =
     map (\<lambda>src. (src_name src, src_url src, str ''json'', max_age_of src)) (sina_api cfg) @
     map (\<lambda>src. (src_name src, src_url src, str ''rss'', max_age_of src)) (rss_feeds cfg)"

definition get_current_url :: "config \<Rightarrow> pystr \<Rightarrow> pystr option" where
  "get_current_url cfg source_name =
     (case find (\<lambda>src. src_name src = source_name) (sina_api cfg @ rss_feeds cfg) of
        None \<Rightarrow> None
      | Some src \<Rightarrow> Some (src_url src))"

subsection \<open>Concurrent Scheduler\<close>

text \<open>
  The pool runs one \<open>check_source\<close> per task; \<open>as_completed\<close> hands the futures back in
  the order in which they finish. The model gives the \<open>i\<close>-th submitted task its own view
  of the world and a finishing time; the futures are visited by finishing time, which can
  be any order of the tasks. \<open>results\<close> is a \<open>dict\<close>: assigning to a key that is present
  replaces its value in place, a new key goes to the end.
\<close>

definition run_task :: "'dt pylib \<Rightarrow> env \<Rightarrow> task \<Rightarrow> exn + result" where
  "run_task L E t = (case t of (name, url, stype, max_age) \<Rightarrow> check_source L E name url stype max_age)"

text \<open>The body of \<open>for future in as_completed(futures)\<close>: \<open>future.result()\<close> under \<open>try\<close>.\<close>

definition harvest :: "exn + result \<Rightarrow> result" where
  "harvest r =
     (case r of
        Inr res \<Rightarrow> res
      | Inl e \<Rightarrow>
          \<lparr>ok = False, error = Some (Exception_error e), article_count = 0,
            newest_age_hours = None\<rparr>)"

definition as_completed :: "(nat \<Rightarrow> nat) \<Rightarrow> nat \<Rightarrow> nat list" where
  "as_completed finish n = sort_key finish [0..<n]"

definition parallel_check ::
  "'dt pylib \<Rightarrow> (nat \<Rightarrow> env) \<Rightarrow> (nat \<Rightarrow> nat) \<Rightarrow> task list \<Rightarrow> (pystr \<times> result) list" where
  "parallel_check L envs finish tasks =
     fold (\<lambda>i results. AList.update (fst (tasks ! i)) (harvest (run_task L (envs i) (tasks ! i))) results)
       (as_completed finish (length tasks)) []"

subsection \<open>Failure-State Machine\<close>

record entry =
  consecutive_fails :: int
  last_check :: "pystr option"
  last_error :: "err option"
  swapped_from :: "pystr option"

type_synonym state = "pystr \<rightharpoonup> entry"

type_synonym event = "pystr \<times> pystr \<times> pystr"

text \<open>
  A call of \<open>swap_url_in_config\<close>, recorded with the source it was made for and the
  branch that made it: \<open>Failover name old_url fallback_url\<close> is the call of the auto-swap
  branch, \<open>Revert name current_url original_url\<close> the call of the auto-revert branch.
\<close>

datatype mutation = Failover pystr pystr pystr | Revert pystr pystr pystr

text \<open>
  The variables of the loop over \<open>results\<close>: the text of the config file, \<open>state\<close>,
  \<open>swapped\<close>, \<open>reverted\<close>, and the calls of \<open>swap_url_in_config\<close> made so far.
\<close>

record cycle =
  cfg_text :: pystr
  state :: state
  swapped :: "event list"
  reverted :: "event list"
  requests :: "mutation list"

definition default_entry :: entry where
  "default_entry =
     \<lparr>consecutive_fails = 0, last_check = None, last_error = None, swapped_from = None\<rparr>"

text \<open>\<open>state.get(name, {...})\<close>: a source not seen before starts from the default entry.\<close>

definition state_get :: "state \<Rightarrow> pystr \<Rightarrow> entry" where
  "state_get st name = (case st name of None \<Rightarrow> default_entry | Some e \<Rightarrow> e)"

definition update_entry :: "pystr \<Rightarrow> result \<Rightarrow> entry \<Rightarrow> entry" where
  "update_entry now_bjt res e =
     (if ok res then e\<lparr>consecutive_fails := 0, last_error := None\<rparr>
      else e\<lparr>consecutive_fails := consecutive_fails e + 1, last_error := error res\<rparr>)
     \<lparr>last_check := Some now_bjt\<rparr>"

text \<open>
  The auto-swap statement (\<open>if not res["ok"] and ... >= FAIL_THRESHOLD and name in
  FALLBACK_URLS\<close>). \<open>None\<close> is its \<open>continue\<close>, which ends the iteration.
\<close>

definition auto_swap :: "config \<Rightarrow> pystr \<Rightarrow> result \<Rightarrow> entry \<Rightarrow> cycle \<Rightarrow> (entry \<times> cycle) option" where
  "auto_swap cfg name res e c =
     (if \<not> ok res \<and> FAIL_THRESHOLD \<le> consecutive_fails e then
        (case map_of FALLBACK_URLS name of
           None \<Rightarrow> Some (e, c)
         | Some fallback_url \<Rightarrow>
             if swapped_from e \<noteq> None then None
             else
               (case get_current_url cfg name of
                  None \<Rightarrow> Some (e, c)
                | Some old_url \<Rightarrow>
                    if old_url = [] then Some (e, c)
                    else
                      (let r = swap_url_in_config old_url fallback_url (cfg_text c);
                           c' = c\<lparr>cfg_text := snd r,
                                  requests := requests c @ [Failover name old_url fallback_url]\<rparr>
                       in if fst r
                          then Some (e\<lparr>swapped_from := Some old_url\<rparr>,
                                     c'\<lparr>swapped := swapped c @ [(name, old_url, fallback_url)]\<rparr>)
                          else Some (e, c'))))
      else Some (e, c))"

text \<open>
  The auto-revert statement (\<open>if res["ok"] and entry.get("swapped_from")\<close>). \<open>E\<close> is the
  world as the probe of the original URL sees it; an exception of the probe leaves
  \<open>run_checks\<close>.
\<close>

definition auto_revert ::
  "'dt pylib \<Rightarrow> env \<Rightarrow> config \<Rightarrow> pystr \<Rightarrow> result \<Rightarrow> entry \<Rightarrow> cycle \<Rightarrow> exn + entry \<times> cycle" where
  "auto_revert L E cfg name res e c =
     (if \<not> ok res then Inr (e, c)
      else
        (case swapped_from e of
           None \<Rightarrow> Inr (e, c)
         | Some original_url \<Rightarrow>
             if original_url = [] then Inr (e, c)
             else
               (case get_current_url cfg name of
                  None \<Rightarrow> Inr (e, c)
                | Some current_url \<Rightarrow>
                    if current_url = [] \<or> current_url = original_url then Inr (e, c)
                    else
                      (case check_source L E name original_url (str ''rss'') DEFAULT_MAX_AGE_HOURS of
                         Inl x \<Rightarrow> Inl x
                       | Inr probe \<Rightarrow>
                           if ok probe then
                             (let r = swap_url_in_config current_url original_url (cfg_text c);
                                  c' = c\<lparr>cfg_text := snd r,
                                         requests := requests c @ [Revert name current_url original_url]\<rparr>
                              in if fst r
                                 then Inr (e\<lparr>swapped_from := None\<rparr>,
                                           c'\<lparr>reverted := reverted c @ [(name, current_url, original_url)]\<rparr>)
                                 else Inr (e, c'))
                           else Inr (e, c)))))"

text \<open>
  \<open>entry\<close> is the object stored in \<open>state[name]\<close>, so what the two statements assign to it
  is in \<open>state\<close>: the model stores the entry when the iteration ends.
\<close>

definition commit :: "pystr \<Rightarrow> entry \<times> cycle \<Rightarrow> cycle" where
  "commit name ec = (snd ec)\<lparr>state := (state (snd ec))(name \<mapsto> fst ec)\<rparr>"

text \<open>The body of \<open>for name, res in results.items()\<close>.\<close>

definition process_result ::
  "'dt pylib \<Rightarrow> env \<Rightarrow> config \<Rightarrow> pystr \<Rightarrow> pystr \<times> result \<Rightarrow> cycle \<Rightarrow> exn + cycle" where
  "process_result L E cfg now_bjt nr c =
     (let name = fst nr;
          res = snd nr;
          e = update_entry now_bjt res (state_get (state c) name)
      in case auto_swap cfg name res e c of
           None \<Rightarrow> Inr (commit name (e, c))
         | Some ec \<Rightarrow>
             (case auto_revert L E cfg name res (fst ec) (snd ec) of
                Inl x \<Rightarrow> Inl x
              | Inr ec' \<Rightarrow> Inr (commit name ec')))"

fun mutation_name :: "mutation \<Rightarrow> pystr" where
  "mutation_name (Failover name old_url new_url) = name"
| "mutation_name (Revert name old_url new_url) = name"

fun is_failover :: "mutation \<Rightarrow> bool" where
  "is_failover (Failover name old_url new_url) = True"
| "is_failover (Revert name old_url new_url) = False"

fun process_all ::
  "'dt pylib \<Rightarrow> (pystr \<Rightarrow> env) \<Rightarrow> config \<Rightarrow> pystr \<Rightarrow> (pystr \<times> result) list \<Rightarrow> cycle \<Rightarrow> exn + cycle" where
  "process_all L penv cfg now_bjt [] c = Inr c"
| "process_all L penv cfg now_bjt (nr # rest) c =
     (case process_result L (penv (fst nr)) cfg now_bjt nr c of
        Inl x \<Rightarrow> Inl x
      | Inr c' \<Rightarrow> process_all L penv cfg now_bjt rest c')"

text \<open>
  What one cycle meets outside the program: the world as each scheduled check sees it,
  when each check finishes, the world as the probe made for a source sees it, and the
  clock string \<open>now_bjt\<close>.
\<close>

record world =
  task_env :: "nat \<Rightarrow> env"
  finish_time :: "nat \<Rightarrow> nat"
  probe_env :: "pystr \<Rightarrow> env"
  clock :: pystr

text \<open>
  \<open>run_checks()\<close>, from the text of the config file and the loaded state. It returns
  \<open>results\<close> and the loop variables: the state that \<open>save_state\<close> writes, the text the config
  file holds at the end, \<open>swapped\<close> and \<open>reverted\<close>.
\<close>

definition run_checks ::
  "'dt pylib \<Rightarrow> world \<Rightarrow> pystr \<Rightarrow> state \<Rightarrow> exn + (pystr \<times> result) list \<times> cycle" where
  "run_checks L w text st =
     (case json_load_config L text of
        None \<Rightarrow> Inl JSONDecodeError
      | Some cfg \<Rightarrow>
          (let results = parallel_check L (task_env w) (finish_time w) (build_tasks cfg)
           in case process_all L (probe_env w) cfg (clock w) results
                     \<lparr>cfg_text = text, state = st, swapped = [], reverted = [], requests = []\<rparr> of
                Inl x \<Rightarrow> Inl x
              | Inr c \<Rightarrow> Inr (results, c)))"

subsection \<open>Successive cycles\<close>

text \<open>
  Between two cycles the program keeps nothing but its two files: the config file, which
  \<open>swap_url_in_config\<close> rewrites, and the state file, which \<open>save_state\<close> writes at the end
  of \<open>run_checks\<close> and \<open>load_state\<close> reads at its start. A cycle that raises has written
  neither: in the model \<open>run_checks\<close> raises only while it loads the config.
\<close>

record disk =
  config_file :: pystr
  state_file :: state

definition next_disk :: "'dt pylib \<Rightarrow> world \<Rightarrow> disk \<Rightarrow> disk" where
  "next_disk L w d =
     (case run_checks L w (config_file d) (state_file d) of
        Inl x \<Rightarrow> d
      | Inr rc \<Rightarrow> \<lparr>config_file = cfg_text (snd rc), state_file = state (snd rc)\<rparr>)"

text \<open>The files before each cycle of a sequence, and after the last one.\<close>

fun run_cycles :: "'dt pylib \<Rightarrow> world list \<Rightarrow> disk \<Rightarrow> disk list" where
  "run_cycles L [] d = [d]"
| "run_cycles L (w # ws) d = d # run_cycles L ws (next_disk L w d)"

section \<open>A concrete world\<close>

text \<open>
  One source, Solidot, with its primary URL and the mirror of the fallback registry; a
  config document that lists it in one of the two sections; a library that reads these
  documents, one JSON body (one article, \<open>ctime\<close> 1672646400, which is 2 January 2023,
  08:00 UTC) and one RSS body (one item published at that time); and views of the world
  in which a URL answers or does not. The theorems below are applied to them.
\<close>

definition solidot :: pystr where
  "solidot = str ''Solidot''"

definition primary_url :: pystr where
  "primary_url = str ''https://www.solidot.org/index.rss''"

definition mirror_url :: pystr where
  "mirror_url = str ''https://rsshub.rssforever.com/solidot''"

definition demo_doc :: "pystr \<Rightarrow> pystr \<Rightarrow> pystr" where
  "demo_doc part url =
     str ''{'' @ json_dumps (str ''news_sources'') @ str '': {'' @ json_dumps part @
     str '': [{'' @ json_dumps (str ''name'') @ str '': '' @ json_dumps solidot @ str '', '' @
     json_dumps (str ''url'') @ str '': '' @ json_dumps url @ str ''}]}}''"

definition demo_rss_config :: "pystr \<Rightarrow> config" where
  "demo_rss_config url =
     \<lparr>sina_api = [],
      rss_feeds = [\<lparr>src_name = solidot, src_url = url, src_max_age_hours = None\<rparr>]\<rparr>"

definition demo_api_config :: "pystr \<Rightarrow> config" where
  "demo_api_config url =
     \<lparr>sina_api = [\<lparr>src_name = solidot, src_url = url, src_max_age_hours = Some 24\<rparr>],
      rss_feeds = []\<rparr>"

definition demo_load :: "pystr \<Rightarrow> config option" where
  "demo_load t =
     (if t = demo_doc (str ''rss_feeds'') [] then Some (demo_rss_config [])
      else if t = demo_doc (str ''rss_feeds'') primary_url then Some (demo_rss_config primary_url)
      else if t = demo_doc (str ''rss_feeds'') mirror_url then Some (demo_rss_config mirror_url)
      else if t = demo_doc (str ''sina_api'') mirror_url then Some (demo_api_config mirror_url)
      else None)"

definition demo_api_body :: bytes where
  \<open>demo_api_body = ''{"result": {"data": [{"ctime": "1672646400"}]}}''\<close>

definition demo_feed_body :: bytes where
  "demo_feed_body =
     ''<rss><channel><item><pubDate>Mon, 02 Jan 2023 08:00:00 +0000</pubDate></item></channel></rss>''"

definition demo_api_data :: json where
  "demo_api_data =
     JObj [(str ''result'',
            JObj [(str ''data'', JArr [JObj [(str ''ctime'', JStr (str ''1672646400''))]])])]"

definition demo_feed_tree :: xml where
  "demo_feed_tree =
     Element (str ''rss'') None
       [Element (str ''channel'') None
          [Element (str ''item'') None
             [Element (str ''pubDate'') (Some (str ''Mon, 02 Jan 2023 08:00:00 +0000'')) []]]]"

text \<open>A datetime is represented by its timestamp.\<close>

definition demo_lib :: "rat pylib" where
  "demo_lib =
     \<lparr>json_load_config = demo_load,
      json_loads = (\<lambda>raw. if raw = demo_api_body then Some demo_api_data
                          else if raw = ''[]'' then Some (JArr []) else None),
      int_str = (\<lambda>s. if s = str ''1672646400'' then Some 1672646400 else None),
      xml_fromstring = (\<lambda>raw. if raw = demo_feed_body then Some demo_feed_tree else None),
      parsedate_to_datetime =
        (\<lambda>s. if s = str ''Mon, 02 Jan 2023 08:00:00 +0000'' then Some 1672646400 else None),
      fromisoformat = (\<lambda>s. None),
      timestamp = (\<lambda>dt. dt),
      isdecimal = (\<lambda>c. 48 \<le> c \<and> c \<le> 57)\<rparr>"

definition demo_env :: "(pystr \<Rightarrow> pystr + bytes) \<Rightarrow> rat \<Rightarrow> env" where
  "demo_env answer now_ts = \<lparr>urlopen = answer, time_now = now_ts\<rparr>"

text \<open>No URL answers; the empty URL is refused before any request is sent.\<close>

definition all_down :: "pystr \<Rightarrow> pystr + bytes" where
  "all_down url = Inl (if url = [] then str ''ValueError'' else str ''URLError'')"

text \<open>Every URL answers with the given body.\<close>

definition all_up :: "bytes \<Rightarrow> pystr \<Rightarrow> pystr + bytes" where
  "all_up body url = Inr body"

definition demo_entry :: "int \<Rightarrow> pystr option \<Rightarrow> entry" where
  "demo_entry fails origin =
     \<lparr>consecutive_fails = fails, last_check = Some (str ''2023-01-05 10:00 BJT''),
      last_error = (if fails = 0 then None else Some (Unreachable (str ''URLError''))),
      swapped_from = origin\<rparr>"

definition demo_cycle :: "pystr \<Rightarrow> entry \<Rightarrow> cycle" where
  "demo_cycle doc e =
     \<lparr>cfg_text = doc, state = [solidot \<mapsto> e], swapped = [], reverted = [], requests = []\<rparr>"

text \<open>A cycle during which nothing answers, 80 hours after the article's time.\<close>

definition down_world :: world where
  "down_world =
     \<lparr>task_env = (\<lambda>i. demo_env all_down 1672934400), finish_time = (\<lambda>i. 0),
      probe_env = (\<lambda>name. demo_env all_down 1672934400),
      clock = str ''2023-01-06 00:00 BJT''\<rparr>"

text \<open>
  Two tasks for the scheduler: a \<open>json\<close> source whose body is the JSON array \<open>[]\<close>, and
  the feed; and the files of a source that has been swapped to its mirror.
\<close>

definition demo_tasks :: "task list" where
  "demo_tasks =
     [(str ''Sina'', primary_url, str ''json'', 72), (solidot, mirror_url, str ''rss'', 72)]"

definition demo_task_env :: "nat \<Rightarrow> env" where
  "demo_task_env i =
     (if i = 0 then demo_env (all_up ''[]'') 1672653600
      else demo_env (all_up demo_feed_body) 1672653600)"

definition swapped_disk :: disk where
  "swapped_disk =
     \<lparr>config_file = demo_doc (str ''rss_feeds'') mirror_url,
      state_file = [solidot \<mapsto> demo_entry 3 (Some primary_url)]\<rparr>"

section \<open>Lemmas: substring search and replacement\<close>



section \<open>The loop body, case by case\<close>

lemma rss_not_json: "str ''rss'' \<noteq> str ''json''"
  by (simp add: str_def)

lemma check_source_rss:
  "check_source L E name url (str ''rss'') m =
     (case urlopen E url of
        Inl ty \<Rightarrow> Inr (failure (Unreachable ty))
      | Inr raw \<Rightarrow> if raw = [] then Inr (failure Empty_response)
                   else Inr (check_xml L (time_now E) raw m))"
  by (simp add: check_source_def rss_not_json split: sum.splits)

lemma check_source_rss_returns:
  "\<exists>probe. check_source L E name url (str ''rss'') m = Inr probe"
  by (simp add: check_source_rss split: sum.splits)

lemma auto_revert_returns: "\<exists>ec. auto_revert L E cfg name res e c = Inr ec"
proof -
  obtain probe where "check_source L E name (the (swapped_from e)) (str ''rss'') DEFAULT_MAX_AGE_HOURS = Inr probe"
    using check_source_rss_returns by blast
  then show ?thesis
    by (auto simp: auto_revert_def Let_def split: option.splits)
qed

lemma process_result_returns: "\<exists>c'. process_result L E cfg now nr c = Inr c'"
proof -
  define e where "e = update_entry now (snd nr) (state_get (state c) (fst nr))"
  show ?thesis
  proof (cases "auto_swap cfg (fst nr) (snd nr) e c")
    case None
    then show ?thesis by (simp add: process_result_def Let_def e_def)
  next
    case (Some ec)
    obtain ec' where "auto_revert L E cfg (fst nr) (snd nr) (fst ec) (snd ec) = Inr ec'"
      using auto_revert_returns by blast
    with Some show ?thesis by (simp add: process_result_def Let_def e_def)
  qed
qed


lemma auto_swap_continue:
  "\<not> ok res \<Longrightarrow> FAIL_THRESHOLD \<le> consecutive_fails e \<Longrightarrow> map_of FALLBACK_URLS name = Some fb \<Longrightarrow>
   swapped_from e = Some u \<Longrightarrow> auto_swap cfg name res e c = None"
  by (simp add: auto_swap_def)

lemma auto_swap_request:
  "\<not> ok res \<Longrightarrow> FAIL_THRESHOLD \<le> consecutive_fails e \<Longrightarrow> map_of FALLBACK_URLS name = Some fb \<Longrightarrow>
   swapped_from e = None \<Longrightarrow> get_current_url cfg name = Some old \<Longrightarrow> old \<noteq> [] \<Longrightarrow>
   auto_swap cfg name res e c =
     Some (if fst (swap_url_in_config old fb (cfg_text c)) then e\<lparr>swapped_from := Some old\<rparr> else e,
           c\<lparr>cfg_text := snd (swap_url_in_config old fb (cfg_text c)),
             requests := requests c @ [Failover name old fb],
             swapped := (if fst (swap_url_in_config old fb (cfg_text c))
                         then swapped c @ [(name, old, fb)] else swapped c)\<rparr>)"
  by (simp add: auto_swap_def Let_def)

lemma auto_swap_set:
  "swapped_from e = Some u \<Longrightarrow> auto_swap cfg name res e c = None \<or> auto_swap cfg name res e c = Some (e, c)"
  by (simp add: auto_swap_def split: option.splits)

lemma auto_swap_other:
  "auto_swap cfg name res e c = Some ec \<Longrightarrow> ec \<noteq> (e, c) \<Longrightarrow>
   \<exists>fb old. \<not> ok res \<and> FAIL_THRESHOLD \<le> consecutive_fails e \<and> map_of FALLBACK_URLS name = Some fb \<and>
     swapped_from e = None \<and> get_current_url cfg name = Some old \<and> old \<noteq> []"
  by (auto simp: auto_swap_def Let_def split: option.splits if_splits)

lemma auto_revert_request:
  "ok res \<Longrightarrow> swapped_from e = Some orig \<Longrightarrow> orig \<noteq> [] \<Longrightarrow> get_current_url cfg name = Some cur \<Longrightarrow>
   cur \<noteq> [] \<Longrightarrow> cur \<noteq> orig \<Longrightarrow>
   check_source L E name orig (str ''rss'') DEFAULT_MAX_AGE_HOURS = Inr probe \<Longrightarrow> ok probe \<Longrightarrow>
   auto_revert L E cfg name res e c =
     Inr (if fst (swap_url_in_config cur orig (cfg_text c)) then e\<lparr>swapped_from := None\<rparr> else e,
          c\<lparr>cfg_text := snd (swap_url_in_config cur orig (cfg_text c)),
            requests := requests c @ [Revert name cur orig],
            reverted := (if fst (swap_url_in_config cur orig (cfg_text c))
                         then reverted c @ [(name, cur, orig)] else reverted c)\<rparr>)"
  by (simp add: auto_revert_def Let_def)

lemma auto_revert_other:
  "auto_revert L E cfg name res e c \<noteq> Inr (e, c) \<Longrightarrow>
   \<exists>orig cur probe. ok res \<and> swapped_from e = Some orig \<and> orig \<noteq> [] \<and> get_current_url cfg name = Some cur \<and>
      cur \<noteq> [] \<and> cur \<noteq> orig \<and>
      check_source L E name orig (str ''rss'') DEFAULT_MAX_AGE_HOURS = Inr probe \<and> ok probe"
  using check_source_rss_returns [of L E name "the (swapped_from e)" DEFAULT_MAX_AGE_HOURS]
  by (auto simp: auto_revert_def Let_def split: option.splits if_splits)

lemma auto_revert_not_ok: "\<not> ok res \<Longrightarrow> auto_revert L E cfg name res e c = Inr (e, c)"
  by (simp add: auto_revert_def)


lemma swapped_from_update_entry [simp]:
  "swapped_from (update_entry now res e) = swapped_from e"
  by (simp add: update_entry_def)

lemma process_result_cases [consumes 1, case_names idle failover revert]:
  assumes run: "process_result L E cfg now (k, res) c = Inr c'"
  obtains
    (idle) "c' = commit k (update_entry now res (state_get (state c) k), c)"
  | (failover) fb old where
      "\<not> ok res" "FAIL_THRESHOLD \<le> consecutive_fails (state_get (state c) k) + 1"
      "map_of FALLBACK_URLS k = Some fb" "swapped_from (state_get (state c) k) = None"
      "get_current_url cfg k = Some old" "old \<noteq> []"
      "c' = commit k
         (if fst (swap_url_in_config old fb (cfg_text c))
          then (update_entry now res (state_get (state c) k))\<lparr>swapped_from := Some old\<rparr>
          else update_entry now res (state_get (state c) k),
          c\<lparr>cfg_text := snd (swap_url_in_config old fb (cfg_text c)),
            requests := requests c @ [Failover k old fb],
            swapped := (if fst (swap_url_in_config old fb (cfg_text c))
                        then swapped c @ [(k, old, fb)] else swapped c)\<rparr>)"
  | (revert) orig cur probe where
      "ok res" "swapped_from (state_get (state c) k) = Some orig" "orig \<noteq> []"
      "get_current_url cfg k = Some cur" "cur \<noteq> []" "cur \<noteq> orig"
      "check_source L E k orig (str ''rss'') DEFAULT_MAX_AGE_HOURS = Inr probe" "ok probe"
      "c' = commit k
         (if fst (swap_url_in_config cur orig (cfg_text c))
          then (update_entry now res (state_get (state c) k))\<lparr>swapped_from := None\<rparr>
          else update_entry now res (state_get (state c) k),
          c\<lparr>cfg_text := snd (swap_url_in_config cur orig (cfg_text c)),
            requests := requests c @ [Revert k cur orig],
            reverted := (if fst (swap_url_in_config cur orig (cfg_text c))
                         then reverted c @ [(k, cur, orig)] else reverted c)\<rparr>)"
proof -
  define e where "e = update_entry now res (state_get (state c) k)"
  have cf: "\<not> ok res \<Longrightarrow> consecutive_fails e = consecutive_fails (state_get (state c) k) + 1"
    by (simp add: e_def update_entry_def)
  have sf: "swapped_from e = swapped_from (state_get (state c) k)"
    by (simp add: e_def)
  show thesis
  proof (cases "auto_swap cfg k res e c")
    case None
    with run have "c' = commit k (e, c)"
      by (simp add: process_result_def Let_def e_def)
    then show thesis using idle e_def by simp
  next
    case (Some ec)
    show thesis
    proof (cases "ec = (e, c)")
      case True
      show thesis
      proof (cases "auto_revert L E cfg k res e c = Inr (e, c)")
        case same: True
        with run Some True have "c' = commit k (e, c)"
          by (simp add: process_result_def Let_def e_def)
        then show thesis using idle e_def by simp
      next
        case False
        from auto_revert_other [OF False] obtain orig cur probe where
          h: "ok res" "swapped_from e = Some orig" "orig \<noteq> []" "get_current_url cfg k = Some cur"
             "cur \<noteq> []" "cur \<noteq> orig"
             "check_source L E k orig (str ''rss'') DEFAULT_MAX_AGE_HOURS = Inr probe" "ok probe"
          by blast
        from run Some True auto_revert_request [OF h, of c]
        have "c' = commit k
           (if fst (swap_url_in_config cur orig (cfg_text c)) then e\<lparr>swapped_from := None\<rparr> else e,
            c\<lparr>cfg_text := snd (swap_url_in_config cur orig (cfg_text c)),
              requests := requests c @ [Revert k cur orig],
              reverted := (if fst (swap_url_in_config cur orig (cfg_text c))
                           then reverted c @ [(k, cur, orig)] else reverted c)\<rparr>)"
          by (simp add: process_result_def Let_def e_def)
        with h sf show thesis using revert e_def by simp
      qed
    next
      case False
      from auto_swap_other [OF Some False] obtain fb old where
        h: "\<not> ok res" "FAIL_THRESHOLD \<le> consecutive_fails e" "map_of FALLBACK_URLS k = Some fb"
           "swapped_from e = None" "get_current_url cfg k = Some old" "old \<noteq> []"
        by blast
      from auto_swap_request [OF h, of c] Some
      have ec: "ec = (if fst (swap_url_in_config old fb (cfg_text c)) then e\<lparr>swapped_from := Some old\<rparr> else e,
           c\<lparr>cfg_text := snd (swap_url_in_config old fb (cfg_text c)),
             requests := requests c @ [Failover k old fb],
             swapped := (if fst (swap_url_in_config old fb (cfg_text c))
                         then swapped c @ [(k, old, fb)] else swapped c)\<rparr>)"
        by simp
      from run Some h(1) have "c' = commit k ec"
        by (simp add: process_result_def Let_def e_def auto_revert_not_ok)
      with ec h cf sf show thesis using failover e_def by simp
    qed
  qed
qed


lemma state_get_commit [simp]: "state_get (state (commit k (e, c))) k = e"
  by (simp add: commit_def state_get_def)

lemma state_commit_same [simp]: "state (commit k (e, c)) k = Some e"
  by (simp add: commit_def)

lemma state_commit_other [simp]: "n \<noteq> k \<Longrightarrow> state (commit k (e, c)) n = state c n"
  by (simp add: commit_def)

lemma requests_commit [simp]: "requests (commit k (e, c)) = requests c"
  by (simp add: commit_def)

lemma swapped_commit [simp]: "swapped (commit k (e, c)) = swapped c"
  by (simp add: commit_def)

lemma reverted_commit [simp]: "reverted (commit k (e, c)) = reverted c"
  by (simp add: commit_def)

lemma cfg_text_commit [simp]: "cfg_text (commit k (e, c)) = cfg_text c"
  by (simp add: commit_def)

lemma update_entry_fields:
  "consecutive_fails (update_entry now res e) = (if ok res then 0 else consecutive_fails e + 1)"
  "last_error (update_entry now res e) = (if ok res then None else error res)"
  "last_check (update_entry now res e) = Some now"
  by (simp_all add: update_entry_def)

lemma auto_swap_ok: "ok res \<Longrightarrow> auto_swap cfg name res e c = Some (e, c)"
  by (simp add: auto_swap_def)

lemma process_result_ok:
  "ok res \<Longrightarrow> process_result L E cfg now (k, res) c =
     (case auto_revert L E cfg k res (update_entry now res (state_get (state c) k)) c of
        Inl x \<Rightarrow> Inl x | Inr ec \<Rightarrow> Inr (commit k ec))"
  by (simp add: process_result_def Let_def auto_swap_ok)

lemma auto_revert_probe_fails:
  "\<forall>probe. check_source L E name (the (swapped_from e)) (str ''rss'') DEFAULT_MAX_AGE_HOURS = Inr probe \<longrightarrow> \<not> ok probe \<Longrightarrow>
   auto_revert L E cfg name res e c = Inr (e, c)"
  using auto_revert_other [of L E cfg name res e c] by fastforce

section \<open>The whole loop and successive cycles\<close>

lemma process_all_returns: "\<exists>c'. process_all L penv cfg now rs c = Inr c'"
proof (induction rs arbitrary: c)
  case Nil
  then show ?case by simp
next
  case (Cons nr rs)
  obtain c1 where "process_result L (penv (fst nr)) cfg now nr c = Inr c1"
    using process_result_returns by blast
  with Cons.IH [of c1] show ?case by simp
qed

lemma process_result_frame:
  assumes "process_result L E cfg now (k, res) c = Inr c'" and "n \<noteq> k"
  shows "state c' n = state c n"
    and "[m \<leftarrow> requests c'. mutation_name m = n] = [m \<leftarrow> requests c. mutation_name m = n]"
    and "[ev \<leftarrow> swapped c'. fst ev = n] = [ev \<leftarrow> swapped c. fst ev = n]"
    and "[ev \<leftarrow> reverted c'. fst ev = n] = [ev \<leftarrow> reverted c. fst ev = n]"
  using assms by (cases rule: process_result_cases; simp)+

lemma process_all_frame:
  assumes "process_all L penv cfg now rs c = Inr c'" and "n \<notin> fst ` set rs"
  shows "state c' n = state c n \<and>
         [m \<leftarrow> requests c'. mutation_name m = n] = [m \<leftarrow> requests c. mutation_name m = n] \<and>
         [ev \<leftarrow> swapped c'. fst ev = n] = [ev \<leftarrow> swapped c. fst ev = n] \<and>
         [ev \<leftarrow> reverted c'. fst ev = n] = [ev \<leftarrow> reverted c. fst ev = n]"
  using assms
proof (induction rs arbitrary: c)
  case Nil
  then show ?case by simp
next
  case (Cons nr rs)
  obtain k res where nr: "nr = (k, res)" by (cases nr)
  obtain c1 where c1: "process_result L (penv k) cfg now (k, res) c = Inr c1"
    using process_result_returns by blast
  with Cons.prems nr have rest: "process_all L penv cfg now rs c1 = Inr c'" by simp
  from Cons.prems nr have "n \<noteq> k" "n \<notin> fst ` set rs" by auto
  with Cons.IH [OF rest] process_result_frame [OF c1] show ?case by simp
qed

lemma process_result_swapped_set:
  assumes run: "process_result L E cfg now (n, res) c = Inr c'"
    and set: "state c n = Some e" "swapped_from e = Some u"
  shows "swapped c' = swapped c"
    and "requests c' = requests c \<or> (\<exists>cur. requests c' = requests c @ [Revert n cur u])"
    and "\<exists>e'. state c' n = Some e' \<and>
           consecutive_fails e' = (if ok res then 0 else consecutive_fails e + 1) \<and>
           (swapped_from e' = Some u \<and> reverted c' = reverted c \<or>
            swapped_from e' = None \<and> (\<exists>cur. reverted c' = reverted c @ [(n, cur, u)]))"
proof -
  from set have sg: "state_get (state c) n = e" by (simp add: state_get_def)
  show "swapped c' = swapped c"
    using run set sg by (cases rule: process_result_cases) auto
  show "requests c' = requests c \<or> (\<exists>cur. requests c' = requests c @ [Revert n cur u])"
    using run set sg by (cases rule: process_result_cases) auto
  show "\<exists>e'. state c' n = Some e' \<and>
           consecutive_fails e' = (if ok res then 0 else consecutive_fails e + 1) \<and>
           (swapped_from e' = Some u \<and> reverted c' = reverted c \<or>
            swapped_from e' = None \<and> (\<exists>cur. reverted c' = reverted c @ [(n, cur, u)]))"
    using run set sg by (cases rule: process_result_cases) (auto simp: update_entry_fields)
qed

lemma process_all_swapped_set:
  assumes "process_all L penv cfg now rs c = Inr c'"
    and "distinct (map fst rs)"
    and "state c n = Some e" "swapped_from e = Some u"
  shows "[ev \<leftarrow> swapped c'. fst ev = n] = [ev \<leftarrow> swapped c. fst ev = n] \<and>
         [m \<leftarrow> requests c'. mutation_name m = n \<and> is_failover m] =
           [m \<leftarrow> requests c. mutation_name m = n \<and> is_failover m] \<and>
         (\<exists>e'. state c' n = Some e' \<and>
            (\<forall>res. (n, res) \<in> set rs \<longrightarrow>
               consecutive_fails e' = (if ok res then 0 else consecutive_fails e + 1)) \<and>
            (swapped_from e' = Some u \<or>
             swapped_from e' = None \<and> (\<exists>cur. (n, cur, u) \<in> set (reverted c'))))"
  using assms
proof (induction rs arbitrary: c)
  case Nil
  then show ?case by simp
next
  case (Cons nr rs)
  obtain k res where nr: "nr = (k, res)" by (cases nr)
  obtain c1 where c1: "process_result L (penv k) cfg now (k, res) c = Inr c1"
    using process_result_returns by blast
  with Cons.prems nr have rest: "process_all L penv cfg now rs c1 = Inr c'" by simp
  from Cons.prems nr have dist: "distinct (map fst rs)" and fresh: "k \<notin> fst ` set rs" by auto
  show ?case
  proof (cases "k = n")
    case True
    from process_all_frame [OF rest] fresh True
    have fr: "state c' n = state c1 n"
      "[m \<leftarrow> requests c'. mutation_name m = n] = [m \<leftarrow> requests c1. mutation_name m = n]"
      "[ev \<leftarrow> swapped c'. fst ev = n] = [ev \<leftarrow> swapped c1. fst ev = n]"
      "[ev \<leftarrow> reverted c'. fst ev = n] = [ev \<leftarrow> reverted c1. fst ev = n]"
      by simp_all
    from c1 True have c1': "process_result L (penv k) cfg now (n, res) c = Inr c1" by simp
    note step = process_result_swapped_set [OF c1' Cons.prems(3,4)]
    have a: "[ev \<leftarrow> swapped c'. fst ev = n] = [ev \<leftarrow> swapped c. fst ev = n]"
      using fr(3) step(1) by simp
    have "[m \<leftarrow> [m \<leftarrow> requests c'. mutation_name m = n]. is_failover m] =
          [m \<leftarrow> [m \<leftarrow> requests c1. mutation_name m = n]. is_failover m]"
      using fr(2) by simp
    then have "[m \<leftarrow> requests c'. mutation_name m = n \<and> is_failover m] =
          [m \<leftarrow> requests c1. mutation_name m = n \<and> is_failover m]"
      by (simp add: conj_commute)
    moreover have "[m \<leftarrow> requests c1. mutation_name m = n \<and> is_failover m] =
          [m \<leftarrow> requests c. mutation_name m = n \<and> is_failover m]"
      using step(2) by auto
    ultimately have b: "[m \<leftarrow> requests c'. mutation_name m = n \<and> is_failover m] =
           [m \<leftarrow> requests c. mutation_name m = n \<and> is_failover m]" by simp
    from step(3) obtain e' where e': "state c1 n = Some e'"
      "consecutive_fails e' = (if ok res then 0 else consecutive_fails e + 1)"
      "swapped_from e' = Some u \<and> reverted c1 = reverted c \<or>
            swapped_from e' = None \<and> (\<exists>cur. reverted c1 = reverted c @ [(n, cur, u)])"
      by blast
    have only: "(n, res') \<in> set (nr # rs) \<Longrightarrow> res' = res" for res'
      using fresh True nr by (auto simp: image_iff)
    have mem: "(n, cur, u) \<in> set (reverted c1) \<Longrightarrow> (n, cur, u) \<in> set (reverted c')" for cur
    proof -
      assume "(n, cur, u) \<in> set (reverted c1)"
      then have "(n, cur, u) \<in> set [ev \<leftarrow> reverted c1. fst ev = n]" by simp
      with fr(4) have "(n, cur, u) \<in> set [ev \<leftarrow> reverted c'. fst ev = n]" by simp
      then show ?thesis by simp
    qed
    have c: "\<exists>e'. state c' n = Some e' \<and>
            (\<forall>res. (n, res) \<in> set (nr # rs) \<longrightarrow>
               consecutive_fails e' = (if ok res then 0 else consecutive_fails e + 1)) \<and>
            (swapped_from e' = Some u \<or>
             swapped_from e' = None \<and> (\<exists>cur. (n, cur, u) \<in> set (reverted c')))"
    proof (intro exI conjI)
      show "state c' n = Some e'" using fr(1) e'(1) by simp
      show "\<forall>res. (n, res) \<in> set (nr # rs) \<longrightarrow>
               consecutive_fails e' = (if ok res then 0 else consecutive_fails e + 1)"
        using only e'(2) by blast
      show "swapped_from e' = Some u \<or>
             swapped_from e' = None \<and> (\<exists>cur. (n, cur, u) \<in> set (reverted c'))"
      proof (cases "swapped_from e' = Some u")
        case True
        then show ?thesis by simp
      next
        case False
        with e'(3) obtain cur where n: "swapped_from e' = None" and "reverted c1 = reverted c @ [(n, cur, u)]"
          by blast
        then have "(n, cur, u) \<in> set (reverted c1)" by simp
        from mem [OF this] n show ?thesis by blast
      qed
    qed
    from a b c show ?thesis by blast
  next
    case False
    then have nk: "n \<noteq> k" by simp
    note fr = process_result_frame [OF c1 nk]
    from fr(1) Cons.prems(3) have st: "state c1 n = Some e" by simp
    from Cons.IH [OF rest dist st Cons.prems(4)]
    have ih: "[ev \<leftarrow> swapped c'. fst ev = n] = [ev \<leftarrow> swapped c1. fst ev = n]"
      "[m \<leftarrow> requests c'. mutation_name m = n \<and> is_failover m] =
           [m \<leftarrow> requests c1. mutation_name m = n \<and> is_failover m]"
      "\<exists>e'. state c' n = Some e' \<and>
            (\<forall>res. (n, res) \<in> set rs \<longrightarrow>
               consecutive_fails e' = (if ok res then 0 else consecutive_fails e + 1)) \<and>
            (swapped_from e' = Some u \<or>
             swapped_from e' = None \<and> (\<exists>cur. (n, cur, u) \<in> set (reverted c')))"
      by simp_all
    have "[m \<leftarrow> [m \<leftarrow> requests c1. mutation_name m = n]. is_failover m] =
          [m \<leftarrow> [m \<leftarrow> requests c. mutation_name m = n]. is_failover m]"
      using fr(2) by simp
    then have "[m \<leftarrow> requests c1. mutation_name m = n \<and> is_failover m] =
          [m \<leftarrow> requests c. mutation_name m = n \<and> is_failover m]"
      by (simp add: conj_commute)
    with ih fr(3) nr nk show ?thesis by auto
  qed
qed

lemma run_checks_Inl:
  assumes "run_checks L w doc st = Inl x"
  shows "json_load_config L doc = None"
proof (cases "json_load_config L doc")
  case None
  then show ?thesis by simp
next
  case (Some cfg)
  obtain c where "process_all L (probe_env w) cfg (clock w)
      (parallel_check L (task_env w) (finish_time w) (build_tasks cfg))
      \<lparr>cfg_text = doc, state = st, swapped = [], reverted = [], requests = []\<rparr> = Inr c"
    using process_all_returns by blast
  with Some have "run_checks L w doc st = Inr (parallel_check L (task_env w) (finish_time w) (build_tasks cfg), c)"
    by (simp add: run_checks_def Let_def)
  with assms show ?thesis by simp
qed

subsection \<open>The result list of the scheduler\<close>

lemma fold_update_keys:
  "fst ` set (fold (\<lambda>i rs. AList.update (key i) (val i) rs) js acc) = key ` set js \<union> fst ` set acc"
  by (induction js arbitrary: acc) (auto simp: dom_update)

lemma fold_update_distinct:
  "distinct (map fst acc) \<Longrightarrow>
   distinct (map fst (fold (\<lambda>i rs. AList.update (key i) (val i) rs) js acc))"
  by (induction js arbitrary: acc) (simp_all add: distinct_update)

lemma fold_update_other:
  "k \<notin> key ` set js \<Longrightarrow>
   map_of (fold (\<lambda>i rs. AList.update (key i) (val i) rs) js acc) k = map_of acc k"
  by (induction js arbitrary: acc) (simp_all add: update_conv')

lemma fold_update_lookup:
  "inj_on key (set js) \<Longrightarrow> i \<in> set js \<Longrightarrow>
   map_of (fold (\<lambda>i rs. AList.update (key i) (val i) rs) js acc) (key i) = Some (val i)"
proof (induction js arbitrary: acc)
  case Nil
  then show ?case by simp
next
  case (Cons j js)
  show ?case
  proof (cases "i \<in> set js")
    case True
    from Cons.prems have "inj_on key (set js)" by (simp add: inj_on_def)
    from Cons.IH [OF this True] show ?thesis by simp
  next
    case False
    with Cons.prems have ij: "i = j" by simp
    have "key j \<notin> key ` set js"
    proof
      assume "key j \<in> key ` set js"
      then obtain l where "l \<in> set js" "key l = key j" by auto
      with Cons.prems(1) have "l = j" by (auto simp: inj_on_def)
      with \<open>l \<in> set js\<close> False ij show False by simp
    qed
    then show ?thesis using ij by (simp add: fold_update_other update_conv')
  qed
qed

lemma as_completed_perm:
  "set (as_completed finish n) = {0..<n}" "distinct (as_completed finish n)"
  by (simp_all add: as_completed_def)

text \<open>Every order of the tasks is the order of completion for some finishing times.\<close>

lemma position_in_distinct:
  assumes "distinct p" and "k < length p"
  shows "length (takeWhile (\<lambda>x. x \<noteq> p ! k) p) = k"
proof -
  have "takeWhile (\<lambda>x. x \<noteq> p ! k) p = take k p"
  proof (rule takeWhile_eq_take_P_nth)
    fix i assume "i < k" "i < length p"
    with assms show "p ! i \<noteq> p ! k" by (simp add: nth_eq_iff_index_eq)
  next
    show "\<not> p ! k \<noteq> p ! k" by simp
  qed
  with assms(2) show ?thesis by simp
qed

lemma every_order_is_a_completion_order:
  assumes "distinct p" and "set p = {0..<n}"
  shows "\<exists>finish. as_completed finish n = p"
proof -
  define finish where "finish i = length (takeWhile (\<lambda>x. x \<noteq> i) p)" for i
  let ?q = "as_completed finish n"
  have len: "length p = n"
    using assms distinct_card [of p] by simp
  have ranks: "map finish p = [0..<n]"
    using assms(1) len by (auto simp: list_eq_iff_nth_eq finish_def position_in_distinct)
  have "distinct (map finish p)" using ranks by simp
  then have inj: "inj_on finish {0..<n}" using assms(2) by (simp add: distinct_map)
  have "sorted (map finish ?q)" by (simp add: as_completed_def)
  moreover have "distinct (map finish ?q)"
    using inj by (simp add: distinct_map as_completed_perm)
  moreover have "sorted (map finish p)" "distinct (map finish p)" using ranks by simp_all
  moreover have "set (map finish ?q) = set (map finish p)"
    using assms(2) by (simp add: as_completed_perm)
  ultimately have "map finish ?q = map finish p" by (rule sorted_distinct_set_unique)
  moreover have "inj_on finish (set ?q \<union> set p)"
    using inj assms(2) by (simp add: as_completed_perm)
  ultimately have "?q = p" by (simp add: inj_on_map_eq_map)
  then show ?thesis by blast
qed

lemma parallel_check_distinct: "distinct (map fst (parallel_check L envs finish tasks))"
  unfolding parallel_check_def by (rule fold_update_distinct) simp

text \<open>
  In a cycle every source in \<open>results\<close> gets one run of the loop body; the run starts from
  the source's entry in the loaded state, leaves the entry the cycle saves, and what the
  cycle records for the source is what that run records.
\<close>

lemma process_result_own_log:
  assumes "process_result L E cfg now (k, res) c = Inr c'"
  shows "\<exists>rq sw rv. requests c' = requests c @ rq \<and> swapped c' = swapped c @ sw \<and>
           reverted c' = reverted c @ rv \<and>
           (\<forall>m \<in> set rq. mutation_name m = k) \<and> (\<forall>ev \<in> set sw. fst ev = k) \<and>
           (\<forall>ev \<in> set rv. fst ev = k)"
  using assms by (cases rule: process_result_cases) auto

lemma process_all_iteration:
  assumes "process_all L penv cfg now rs c = Inr c'"
    and "distinct (map fst rs)" and "(n, res) \<in> set rs"
  shows "\<exists>c1 c2. process_result L (penv n) cfg now (n, res) c1 = Inr c2 \<and>
           state c1 n = state c n \<and> state c' n = state c2 n \<and>
           [m \<leftarrow> requests c'. mutation_name m = n] =
             [m \<leftarrow> requests c. mutation_name m = n] @ drop (length (requests c1)) (requests c2) \<and>
           [ev \<leftarrow> swapped c'. fst ev = n] =
             [ev \<leftarrow> swapped c. fst ev = n] @ drop (length (swapped c1)) (swapped c2) \<and>
           [ev \<leftarrow> reverted c'. fst ev = n] =
             [ev \<leftarrow> reverted c. fst ev = n] @ drop (length (reverted c1)) (reverted c2)"
  using assms
proof (induction rs arbitrary: c)
  case Nil
  then show ?case by simp
next
  case (Cons nr rs)
  obtain k r where nr: "nr = (k, r)" by (cases nr)
  obtain c1 where c1: "process_result L (penv k) cfg now (k, r) c = Inr c1"
    using process_result_returns by blast
  with Cons.prems nr have rest: "process_all L penv cfg now rs c1 = Inr c'" by simp
  from Cons.prems nr have dist: "distinct (map fst rs)" and fresh: "k \<notin> fst ` set rs" by auto
  show ?case
  proof (cases "k = n")
    case True
    with fresh Cons.prems(3) nr have r: "r = res" by (auto simp: image_iff)
    from process_all_frame [OF rest] fresh True
    have fr: "state c' n = state c1 n"
      "[m \<leftarrow> requests c'. mutation_name m = n] = [m \<leftarrow> requests c1. mutation_name m = n]"
      "[ev \<leftarrow> swapped c'. fst ev = n] = [ev \<leftarrow> swapped c1. fst ev = n]"
      "[ev \<leftarrow> reverted c'. fst ev = n] = [ev \<leftarrow> reverted c1. fst ev = n]"
      by simp_all
    from process_result_own_log [OF c1] True obtain rq sw rv where
      own: "requests c1 = requests c @ rq" "swapped c1 = swapped c @ sw"
        "reverted c1 = reverted c @ rv"
        "\<forall>m \<in> set rq. mutation_name m = n" "\<forall>ev \<in> set sw. fst ev = n"
        "\<forall>ev \<in> set rv. fst ev = n"
      by blast
    have "process_result L (penv n) cfg now (n, res) c = Inr c1" using c1 True r by simp
    moreover have "[m \<leftarrow> requests c'. mutation_name m = n] =
        [m \<leftarrow> requests c. mutation_name m = n] @ drop (length (requests c)) (requests c1)"
      using fr(2) own(1,4) by simp
    moreover have "[ev \<leftarrow> swapped c'. fst ev = n] =
        [ev \<leftarrow> swapped c. fst ev = n] @ drop (length (swapped c)) (swapped c1)"
      using fr(3) own(2,5) by simp
    moreover have "[ev \<leftarrow> reverted c'. fst ev = n] =
        [ev \<leftarrow> reverted c. fst ev = n] @ drop (length (reverted c)) (reverted c1)"
      using fr(4) own(3,6) by simp
    ultimately show ?thesis using fr(1) by blast
  next
    case False
    then have nk: "n \<noteq> k" by simp
    with Cons.prems(3) nr have mem: "(n, res) \<in> set rs" by auto
    note fr = process_result_frame [OF c1 nk]
    from Cons.IH [OF rest dist mem] fr show ?thesis by simp
  qed
qed

lemma run_checks_iteration:
  assumes "run_checks L w doc st = Inr (results, c)" and "(n, res) \<in> set results"
  shows "\<exists>cfg c1 c2. json_load_config L doc = Some cfg \<and>
           process_result L (probe_env w n) cfg (clock w) (n, res) c1 = Inr c2 \<and>
           state c1 n = st n \<and> state c n = state c2 n \<and>
           [m \<leftarrow> requests c. mutation_name m = n] = drop (length (requests c1)) (requests c2) \<and>
           [ev \<leftarrow> swapped c. fst ev = n] = drop (length (swapped c1)) (swapped c2) \<and>
           [ev \<leftarrow> reverted c. fst ev = n] = drop (length (reverted c1)) (reverted c2)"
proof -
  let ?c0 = "\<lparr>cfg_text = doc, state = st, swapped = [], reverted = [], requests = []\<rparr>"
  from assms(1) obtain cfg where cfg: "json_load_config L doc = Some cfg"
    by (auto simp: run_checks_def split: option.splits)
  with assms(1) have res: "results = parallel_check L (task_env w) (finish_time w) (build_tasks cfg)"
    and loop: "process_all L (probe_env w) cfg (clock w) results ?c0 = Inr c"
    by (auto simp: run_checks_def Let_def split: sum.splits)
  from res have dist: "distinct (map fst results)" by (simp add: parallel_check_distinct)
  from process_all_iteration [OF loop dist assms(2)] cfg show ?thesis by auto
qed

lemma run_checks_keeps_swapped_from:
  assumes run: "run_checks L w doc st = Inr (results, c)"
    and set: "st n = Some e" "swapped_from e = Some u"
  shows "(\<forall>ev \<in> set (swapped c). fst ev \<noteq> n) \<and>
         (\<forall>m \<in> set (requests c). mutation_name m = n \<longrightarrow> \<not> is_failover m) \<and>
         (\<exists>e'. state c n = Some e' \<and>
            (\<forall>res. (n, res) \<in> set results \<longrightarrow>
               consecutive_fails e' = (if ok res then 0 else consecutive_fails e + 1)) \<and>
            (swapped_from e' = Some u \<or>
             swapped_from e' = None \<and> (\<exists>cur. (n, cur, u) \<in> set (reverted c))))"
proof -
  let ?c0 = "\<lparr>cfg_text = doc, state = st, swapped = [], reverted = [], requests = []\<rparr>"
  from run obtain cfg where cfg: "json_load_config L doc = Some cfg"
    by (auto simp: run_checks_def split: option.splits)
  with run have res: "results = parallel_check L (task_env w) (finish_time w) (build_tasks cfg)"
    and loop: "process_all L (probe_env w) cfg (clock w) results ?c0 = Inr c"
    by (auto simp: run_checks_def Let_def split: sum.splits)
  from res have dist: "distinct (map fst results)" by (simp add: parallel_check_distinct)
  have st0: "state ?c0 n = Some e" using set by simp
  from process_all_swapped_set [OF loop dist st0 set(2)]
  have a: "[ev \<leftarrow> swapped c. fst ev = n] = []"
    and b: "[m \<leftarrow> requests c. mutation_name m = n \<and> is_failover m] = []"
    and c: "\<exists>e'. state c n = Some e' \<and>
            (\<forall>res. (n, res) \<in> set results \<longrightarrow>
               consecutive_fails e' = (if ok res then 0 else consecutive_fails e + 1)) \<and>
            (swapped_from e' = Some u \<or>
             swapped_from e' = None \<and> (\<exists>cur. (n, cur, u) \<in> set (reverted c)))"
    by simp_all
  from a have "\<forall>ev \<in> set (swapped c). fst ev \<noteq> n" by (simp add: filter_empty_conv)
  moreover from b have "\<forall>m \<in> set (requests c). mutation_name m = n \<longrightarrow> \<not> is_failover m"
    by (simp add: filter_empty_conv)
  ultimately show ?thesis using c by blast
qed

lemma run_cycles_0 [simp]: "run_cycles L ws d ! 0 = d"
  by (cases ws) simp_all

lemma run_cycles_Suc:
  "i < length ws \<Longrightarrow> run_cycles L ws d ! Suc i = next_disk L (ws ! i) (run_cycles L ws d ! i)"
proof (induction ws arbitrary: d i)
  case Nil
  then show ?case by simp
next
  case (Cons w ws)
  then show ?case by (cases i) simp_all
qed

section \<open>Lemmas: decoded payloads\<close>


lemma py_get_not_dict: "\<forall>kvs. j \<noteq> JObj kvs \<Longrightarrow> py_get j key dflt = Inl (AttributeError (type_of j))"
  by (cases j) simp_all

section \<open>Date Normalizer: order of the attempts\<close>

lemma parse_date_flexible_rfc2822_first:
  "strip date_str \<noteq> [] \<Longrightarrow> parsedate_to_datetime L (strip date_str) = Some dt \<Longrightarrow>
   parse_date_flexible L date_str = Some dt"
  by (simp add: parse_date_flexible_def Let_def)

lemma parse_date_flexible_iso_second:
  "strip date_str \<noteq> [] \<Longrightarrow> parsedate_to_datetime L (strip date_str) = None \<Longrightarrow>
   fromisoformat L (strip date_str) = Some dt \<Longrightarrow> parse_date_flexible L date_str = Some dt"
  by (simp add: parse_date_flexible_def Let_def)

lemma parse_date_flexible_repair_last:
  "strip date_str \<noteq> [] \<Longrightarrow> parsedate_to_datetime L (strip date_str) = None \<Longrightarrow>
   fromisoformat L (strip date_str) = None \<Longrightarrow>
   parse_date_flexible L date_str =
     (if repair_offset L (strip date_str) \<noteq> strip date_str
      then fromisoformat L (repair_offset L (strip date_str)) else None)"
  by (simp add: parse_date_flexible_def Let_def)

lemma repair_offset_double_space:
  "isdecimal L 48 \<Longrightarrow> isdecimal L 56 \<Longrightarrow>
   repair_offset L (str ''2023-01-02 08:00:00  +0800'') = str ''2023-01-02 08:00:00 +0800''"
  by (simp add: repair_offset_def Let_def str_def isspace_def)

lemma parse_date_flexible_unparseable:
  "parsedate_to_datetime L (str ''yesterday'') = None \<Longrightarrow>
   fromisoformat L (str ''yesterday'') = None \<Longrightarrow>
   parse_date_flexible L (str ''yesterday'') = None"
  by (simp add: parse_date_flexible_def Let_def repair_offset_def strip_def isspace_def str_def)

section \<open>Lemmas: the concrete world, evaluated\<close>

lemma fallback_solidot: "map_of FALLBACK_URLS solidot = Some mirror_url"
  by (simp add: FALLBACK_URLS_def solidot_def mirror_url_def str_def)

lemma swap_demo:
  "swap_url_in_config primary_url mirror_url (demo_doc (str ''rss_feeds'') primary_url) =
     (True, demo_doc (str ''rss_feeds'') mirror_url)"
  by (simp add: swap_url_in_config_def demo_doc_def json_dumps_def ascii_escape_unichar_def
      primary_url_def mirror_url_def solidot_def str_def Let_def)



lemma get_current_url_rss: "get_current_url (demo_rss_config url) solidot = Some url"
  by (simp add: get_current_url_def demo_rss_config_def)

lemma get_current_url_api: "get_current_url (demo_api_config url) solidot = Some url"
  by (simp add: get_current_url_def demo_api_config_def)

lemma state_get_demo [simp]: "state_get (state (demo_cycle doc e)) solidot = e"
  by (simp add: state_get_def demo_cycle_def)

lemma demo_cycle_fields [simp]:
  "cfg_text (demo_cycle doc e) = doc" "swapped (demo_cycle doc e) = []"
  "reverted (demo_cycle doc e) = []" "requests (demo_cycle doc e) = []"
  by (simp_all add: demo_cycle_def)

lemma primary_not_empty: "primary_url \<noteq> []" "mirror_url \<noteq> []" "mirror_url \<noteq> primary_url"
  by (simp_all add: primary_url_def mirror_url_def str_def)

lemma demo_lib_load [simp]: "json_load_config demo_lib = demo_load"
  by (simp add: demo_lib_def)

lemma demo_load_docs:
  "demo_load (demo_doc (str ''rss_feeds'') []) = Some (demo_rss_config [])"
  "demo_load (demo_doc (str ''rss_feeds'') mirror_url) = Some (demo_rss_config mirror_url)"
  by (simp_all add: demo_load_def demo_doc_def json_dumps_def ascii_escape_unichar_def
      primary_url_def mirror_url_def solidot_def str_def)

lemma check_down:
  "check_source L (demo_env all_down t) name url stype m =
     Inr (failure (Unreachable (if url = [] then str ''ValueError'' else str ''URLError'')))"
  by (simp add: check_source_def demo_env_def all_down_def)

lemma parallel_down:
  "parallel_check demo_lib (task_env down_world) (finish_time down_world)
     (build_tasks (demo_rss_config url)) =
   [(solidot, failure (Unreachable (if url = [] then str ''ValueError'' else str ''URLError'')))]"
  by (simp add: parallel_check_def build_tasks_def demo_rss_config_def as_completed_def
      down_world_def run_task_def check_down harvest_def max_age_of_def upt_rec)

lemma down_step_empty_url:
  "process_result L E (demo_rss_config []) now (solidot, failure (Unreachable (str ''ValueError'')))
     (demo_cycle doc (demo_entry 2 None)) =
   Inr (commit solidot
     (update_entry now (failure (Unreachable (str ''ValueError''))) (demo_entry 2 None),
      demo_cycle doc (demo_entry 2 None)))"
  by (simp add: process_result_def Let_def auto_swap_def auto_revert_not_ok failure_def
      fallback_solidot get_current_url_rss)

lemma down_run_empty_url:
  "run_checks demo_lib down_world (demo_doc (str ''rss_feeds'') []) [solidot \<mapsto> demo_entry 2 None] =
   Inr ([(solidot, failure (Unreachable (str ''ValueError'')))],
        commit solidot
          (update_entry (clock down_world) (failure (Unreachable (str ''ValueError''))) (demo_entry 2 None),
           demo_cycle (demo_doc (str ''rss_feeds'') []) (demo_entry 2 None)))"
  using down_step_empty_url [of demo_lib "probe_env down_world solidot" "clock down_world"
      "demo_doc (str ''rss_feeds'') []"]
  by (simp add: run_checks_def demo_load_docs parallel_down Let_def demo_cycle_def)

lemma demo_bodies_differ: "demo_api_body \<noteq> demo_feed_body" "demo_api_body \<noteq> []" "demo_feed_body \<noteq> []"
  "''[]'' \<noteq> demo_api_body"
  by (simp_all add: demo_api_body_def demo_feed_body_def)

lemma demo_articles:
  "articles_of demo_api_data = Inr (JArr [JObj [(str ''ctime'', JStr (str ''1672646400''))]])"
  by (simp add: articles_of_def demo_api_data_def str_def)

lemma demo_newest_ctime:
  "newest_ctime demo_lib [JObj [(str ''ctime'', JStr (str ''1672646400''))]] None =
     Inr (Some 1672646400)"
  by (simp add: demo_lib_def str_def)

lemma check_api_body:
  "check_source demo_lib (demo_env (all_up demo_api_body) now_ts) name url (str ''json'') m =
     Inr (freshness now_ts 1 (Some 1672646400) m)"
  using demo_articles demo_newest_ctime
  by (simp add: check_source_def demo_env_def all_up_def demo_bodies_differ check_json_def
      demo_lib_def)

lemma demo_items:
  "findall (str ''item'') demo_feed_tree =
     [Element (str ''item'') None
        [Element (str ''pubDate'') (Some (str ''Mon, 02 Jan 2023 08:00:00 +0000'')) []]]"
  by (simp add: findall_def demo_feed_tree_def str_def)

lemma demo_pub_str:
  "pub_str (Element (str ''item'') None
        [Element (str ''pubDate'') (Some (str ''Mon, 02 Jan 2023 08:00:00 +0000'')) []]) =
     str ''Mon, 02 Jan 2023 08:00:00 +0000''"
  by (simp add: pub_str_def or_else_def findtext_def str_def)

lemma demo_strip:
  "strip (str ''Mon, 02 Jan 2023 08:00:00 +0000'') = str ''Mon, 02 Jan 2023 08:00:00 +0000''"
  by (simp add: strip_def isspace_def str_def)

lemma demo_parse_date:
  "parse_date_flexible demo_lib (str ''Mon, 02 Jan 2023 08:00:00 +0000'') = Some 1672646400"
  unfolding parse_date_flexible_def demo_strip
  by (simp add: demo_lib_def Let_def str_def)

lemma demo_newest_pub:
  "newest_pub demo_lib
     [Element (str ''item'') None
        [Element (str ''pubDate'') (Some (str ''Mon, 02 Jan 2023 08:00:00 +0000'')) []]] None =
   Some 1672646400"
proof -
  have "str ''Mon, 02 Jan 2023 08:00:00 +0000'' \<noteq> []" by (simp add: str_def)
  moreover have "timestamp demo_lib 1672646400 = 1672646400" by (simp add: demo_lib_def)
  ultimately show ?thesis by (simp add: demo_pub_str demo_strip demo_parse_date)
qed

lemma demo_xml: "xml_fromstring demo_lib demo_feed_body = Some demo_feed_tree"
  "xml_fromstring demo_lib demo_api_body = None"
  by (simp_all add: demo_lib_def demo_bodies_differ)

lemma check_feed_body:
  "check_source demo_lib (demo_env (all_up demo_feed_body) now_ts) name url (str ''rss'') m =
     Inr (freshness now_ts 1 (Some 1672646400) m)"
  by (simp add: check_source_rss demo_env_def all_up_def demo_bodies_differ check_xml_def
      demo_xml demo_items demo_newest_pub del: newest_pub.simps)

lemma round1_whole: "round1 80 = 80" "round1 2 = 2" "round1 1 = 1"
  by (simp_all add: round1_def round_half_even_def)

lemma freshness_demo:
  "freshness 1672934400 n (Some 1672646400) 72 =
     \<lparr>ok = False, error = Some (Stale_feed 80 72), article_count = n, newest_age_hours = Some 80\<rparr>"
  "freshness 1672653600 n (Some 1672646400) 72 =
     \<lparr>ok = True, error = None, article_count = n, newest_age_hours = Some 2\<rparr>"
  "freshness 1672650000 n (Some 1672646400) 24 =
     \<lparr>ok = True, error = None, article_count = n, newest_age_hours = Some 1\<rparr>"
  by (simp_all add: freshness_def round1_whole)

lemma demo_tasks_nth:
  "demo_tasks ! 0 = (str ''Sina'', primary_url, str ''json'', 72)"
  "demo_tasks ! Suc 0 = (solidot, mirror_url, str ''rss'', 72)"
  "length demo_tasks = 2"
  by (simp_all add: demo_tasks_def)

lemma demo_tasks_distinct: "distinct (map fst demo_tasks)"
  by (simp add: demo_tasks_def solidot_def str_def)

lemma check_array_body:
  "check_source demo_lib (demo_env (all_up ''[]'') now_ts) name url (str ''json'') m =
     Inl (AttributeError TList)"
  by (simp add: check_source_def demo_env_def all_up_def check_json_def demo_lib_def
      demo_bodies_differ articles_of_def)

lemma api_config_source:
  "\<lparr>src_name = solidot, src_url = mirror_url, src_max_age_hours = Some 24\<rparr>
     \<in> set (sina_api (demo_api_config mirror_url))"
  by (simp add: demo_api_config_def)

lemma down_step_swapped:
  "process_result L E (demo_rss_config mirror_url) now (solidot, failure (Unreachable (str ''URLError'')))
     (demo_cycle doc (demo_entry 3 (Some primary_url))) =
   Inr (commit solidot
     (update_entry now (failure (Unreachable (str ''URLError''))) (demo_entry 3 (Some primary_url)),
      demo_cycle doc (demo_entry 3 (Some primary_url))))"
proof -
  have "FAIL_THRESHOLD \<le> consecutive_fails (demo_entry 3 (Some primary_url)) + 1"
    by (simp add: FAIL_THRESHOLD_def demo_entry_def)
  then show ?thesis
    by (simp add: process_result_def Let_def auto_swap_def failure_def fallback_solidot
        update_entry_fields demo_entry_def)
qed

lemma down_run_swapped:
  "run_checks demo_lib down_world (config_file swapped_disk) (state_file swapped_disk) =
   Inr ([(solidot, failure (Unreachable (str ''URLError'')))],
        commit solidot
          (update_entry (clock down_world) (failure (Unreachable (str ''URLError'')))
             (demo_entry 3 (Some primary_url)),
           demo_cycle (demo_doc (str ''rss_feeds'') mirror_url) (demo_entry 3 (Some primary_url))))"
  using down_step_swapped [of demo_lib "probe_env down_world solidot" "clock down_world"
      "demo_doc (str ''rss_feeds'') mirror_url"] primary_not_empty(2)
  by (simp add: run_checks_def swapped_disk_def demo_load_docs parallel_down Let_def demo_cycle_def)

lemma healthy_json_original_not_reverted:
  "process_result demo_lib (demo_env (all_up demo_api_body) 1672650000)
     (demo_api_config mirror_url) now
     (solidot, \<lparr>ok = True, error = None, article_count = 1, newest_age_hours = Some 1\<rparr>)
     (demo_cycle (demo_doc (str ''sina_api'') mirror_url) (demo_entry 0 (Some primary_url))) =
   Inr (commit solidot
     (update_entry now \<lparr>ok = True, error = None, article_count = 1, newest_age_hours = Some 1\<rparr>
        (demo_entry 0 (Some primary_url)),
      demo_cycle (demo_doc (str ''sina_api'') mirror_url) (demo_entry 0 (Some primary_url))))"
proof -
  let ?E = "demo_env (all_up demo_api_body) 1672650000"
  let ?res = "\<lparr>ok = True, error = None, article_count = 1, newest_age_hours = Some 1\<rparr>"
  let ?c = "demo_cycle (demo_doc (str ''sina_api'') mirror_url) (demo_entry 0 (Some primary_url))"
  let ?e = "update_entry now ?res (demo_entry 0 (Some primary_url))"
  have "check_source demo_lib ?E solidot primary_url (str ''rss'') DEFAULT_MAX_AGE_HOURS =
      Inr (failure XML_parse_error)"
    by (simp add: check_source_rss demo_env_def all_up_def demo_bodies_differ check_xml_def demo_xml)
  moreover have "swapped_from ?e = Some primary_url" by (simp add: demo_entry_def)
  ultimately have "auto_revert demo_lib ?E (demo_api_config mirror_url) solidot ?res ?e ?c = Inr (?e, ?c)"
    by (intro auto_revert_probe_fails) (simp add: failure_def)
  then show ?thesis by (simp add: process_result_ok)
qed

section \<open>The claims\<close>

text \<open>
  C1, as amended. For a source whose result is a failure, whose \<open>consecutive_fails\<close> after
  the increment is at least \<open>FAIL_THRESHOLD\<close>, for which \<open>FALLBACK_URLS\<close> has a URL, whose
  \<open>swapped_from\<close> is \<open>None\<close>, and whose URL in the loaded config is not empty, the loop body
  calls \<open>swap_url_in_config\<close> once, with that URL and the fallback; exactly when the call
  returns \<open>True\<close> it sets \<open>swapped_from\<close> to that URL and appends
  \<open>(name, old_url, fallback_url)\<close> to \<open>swapped\<close>; when it returns \<open>False\<close>,
  \<open>swapped_from\<close> stays \<open>None\<close> and \<open>swapped\<close> is unchanged.
\<close>

theorem failover_requested_for_live_url:
  assumes "\<not> ok res"
    and "FAIL_THRESHOLD \<le> consecutive_fails (state_get (state c) name) + 1"
    and "map_of FALLBACK_URLS name = Some fallback_url"
    and "swapped_from (state_get (state c) name) = None"
    and "get_current_url cfg name = Some old_url"
    and "old_url \<noteq> []"
  shows "\<exists>c'. process_result L E cfg now_bjt (name, res) c = Inr c' \<and>
     requests c' = requests c @ [Failover name old_url fallback_url] \<and>
     cfg_text c' = snd (swap_url_in_config old_url fallback_url (cfg_text c)) \<and>
     (fst (swap_url_in_config old_url fallback_url (cfg_text c)) \<longrightarrow>
        swapped_from (state_get (state c') name) = Some old_url \<and>
        swapped c' = swapped c @ [(name, old_url, fallback_url)]) \<and>
     (\<not> fst (swap_url_in_config old_url fallback_url (cfg_text c)) \<longrightarrow>
        swapped_from (state_get (state c') name) = None \<and> swapped c' = swapped c)"
proof -
  let ?r = "swap_url_in_config old_url fallback_url (cfg_text c)"
  let ?e = "update_entry now_bjt res (state_get (state c) name)"
  have "process_result L E cfg now_bjt (name, res) c =
      Inr (commit name
        (if fst ?r then ?e\<lparr>swapped_from := Some old_url\<rparr> else ?e,
         c\<lparr>cfg_text := snd ?r,
           requests := requests c @ [Failover name old_url fallback_url],
           swapped := (if fst ?r then swapped c @ [(name, old_url, fallback_url)] else swapped c)\<rparr>))"
    using assms
    by (simp add: process_result_def Let_def auto_swap_request update_entry_fields
        auto_revert_not_ok)
  then show ?thesis using assms(4) by simp
qed

text \<open>
  Without the last condition the statement fails. Solidot is listed with the empty string
  as its URL, has failed twice and is not swapped; in this cycle its check fails again, so
  the count reaches the threshold, and the registry has a fallback for it: \<open>run_checks\<close>
  makes no call of \<open>swap_url_in_config\<close> and leaves the config file as it was.
\<close>

theorem failover_not_requested_for_empty_url:
  "map_of FALLBACK_URLS solidot = Some mirror_url \<and>
   FAIL_THRESHOLD \<le> 3 \<and>
   get_current_url (demo_rss_config []) solidot = Some [] \<and>
   run_checks demo_lib down_world (demo_doc (str ''rss_feeds'') [])
     [solidot \<mapsto>
        \<lparr>consecutive_fails = 2, last_check = Some (str ''2023-01-05 10:00 BJT''),
          last_error = Some (Unreachable (str ''URLError'')), swapped_from = None\<rparr>] =
   Inr ([(solidot,
          \<lparr>ok = False, error = Some (Unreachable (str ''ValueError'')), article_count = 0,
            newest_age_hours = None\<rparr>)],
        \<lparr>cfg_text = demo_doc (str ''rss_feeds'') [],
          state =
            [solidot \<mapsto>
               \<lparr>consecutive_fails = 3, last_check = Some (str ''2023-01-06 00:00 BJT''),
                 last_error = Some (Unreachable (str ''ValueError'')), swapped_from = None\<rparr>],
          swapped = [], reverted = [], requests = []\<rparr>)"
proof -
  have e: "demo_entry 2 None =
      \<lparr>consecutive_fails = 2, last_check = Some (str ''2023-01-05 10:00 BJT''),
        last_error = Some (Unreachable (str ''URLError'')), swapped_from = None\<rparr>"
    by (simp add: demo_entry_def)
  have "run_checks demo_lib down_world (demo_doc (str ''rss_feeds'') [])
     [solidot \<mapsto> demo_entry 2 None] =
   Inr ([(solidot,
          \<lparr>ok = False, error = Some (Unreachable (str ''ValueError'')), article_count = 0,
            newest_age_hours = None\<rparr>)],
        \<lparr>cfg_text = demo_doc (str ''rss_feeds'') [],
          state =
            [solidot \<mapsto>
               \<lparr>consecutive_fails = 3, last_check = Some (str ''2023-01-06 00:00 BJT''),
                 last_error = Some (Unreachable (str ''ValueError'')), swapped_from = None\<rparr>],
          swapped = [], reverted = [], requests = []\<rparr>)"
    unfolding down_run_empty_url
    by (simp add: commit_def demo_cycle_def update_entry_def failure_def demo_entry_def
        down_world_def)
  then show ?thesis
    unfolding e by (simp add: fallback_solidot get_current_url_rss FAIL_THRESHOLD_def)
qed

theorem failover_requested_for_live_url_witness:
  "\<not> ok (failure (Unreachable (str ''URLError''))) \<and>
   FAIL_THRESHOLD \<le> consecutive_fails (demo_entry 2 None) + 1 \<and>
   map_of FALLBACK_URLS solidot = Some mirror_url \<and>
   swapped_from (demo_entry 2 None) = None \<and>
   get_current_url (demo_rss_config primary_url) solidot = Some primary_url \<and>
   primary_url \<noteq> [] \<and>
   (\<exists>c'.
      process_result demo_lib (demo_env all_down 1672934400) (demo_rss_config primary_url)
        (str ''2023-01-06 00:00 BJT'') (solidot, failure (Unreachable (str ''URLError'')))
        (demo_cycle (demo_doc (str ''rss_feeds'') primary_url) (demo_entry 2 None)) = Inr c' \<and>
      requests c' = [Failover solidot primary_url mirror_url] \<and>
      cfg_text c' = demo_doc (str ''rss_feeds'') mirror_url \<and>
      swapped_from (state_get (state c') solidot) = Some primary_url \<and>
      swapped c' = [(solidot, primary_url, mirror_url)])"
proof -
  let ?c = "demo_cycle (demo_doc (str ''rss_feeds'') primary_url) (demo_entry 2 None)"
  have h1: "\<not> ok (failure (Unreachable (str ''URLError'')))"
    by (simp add: failure_def)
  have h2: "FAIL_THRESHOLD \<le> consecutive_fails (state_get (state ?c) solidot) + 1"
    by (simp add: demo_entry_def FAIL_THRESHOLD_def)
  have h3: "swapped_from (state_get (state ?c) solidot) = None"
    by (simp add: demo_entry_def)
  from failover_requested_for_live_url [OF h1 h2 fallback_solidot h3 get_current_url_rss
      primary_not_empty(1), of demo_lib "demo_env all_down 1672934400" "str ''2023-01-06 00:00 BJT''"]
    h1 h2 h3 fallback_solidot get_current_url_rss [of primary_url] primary_not_empty(1)
  show ?thesis by (simp add: swap_demo)
qed

text \<open>
  C2. For every sequence of cycles, every cycle \<open>i\<close> of it and every source whose
  \<open>swapped_from\<close> is set to \<open>u\<close> in the state file before that cycle: after the cycle
  \<open>swapped_from\<close> is still \<open>u\<close> or has been cleared, never another URL; the cycle made no
  auto-swap call of \<open>swap_url_in_config\<close> for the source and put no event for it in
  \<open>swapped\<close>; \<open>swapped_from\<close> is cleared only with an event in \<open>reverted\<close> that restores
  \<open>u\<close>; and when the source's result in the cycle is a failure, its \<open>consecutive_fails\<close>
  still grows by one, past the threshold as well.
\<close>

theorem swapped_from_never_overwritten:
  assumes "i < length ws"
    and "state_file (run_cycles L ws d ! i) n = Some e"
    and "swapped_from e = Some u"
  shows "(\<exists>e'. state_file (run_cycles L ws d ! Suc i) n = Some e' \<and>
            (swapped_from e' = Some u \<or> swapped_from e' = None)) \<and>
         (\<forall>results c.
            run_checks L (ws ! i) (config_file (run_cycles L ws d ! i))
              (state_file (run_cycles L ws d ! i)) = Inr (results, c) \<longrightarrow>
            state_file (run_cycles L ws d ! Suc i) = state c \<and>
            (\<forall>ev \<in> set (swapped c). fst ev \<noteq> n) \<and>
            (\<forall>m \<in> set (requests c). mutation_name m = n \<longrightarrow> \<not> is_failover m) \<and>
            (\<forall>e'. state c n = Some e' \<longrightarrow>
               (\<forall>res. (n, res) \<in> set results \<and> \<not> ok res \<longrightarrow>
                  consecutive_fails e' = consecutive_fails e + 1) \<and>
               (swapped_from e' = None \<longrightarrow> (\<exists>cur. (n, cur, u) \<in> set (reverted c)))))"
proof -
  let ?d = "run_cycles L ws d ! i"
  let ?d' = "run_cycles L ws d ! Suc i"
  have nxt: "?d' = next_disk L (ws ! i) ?d" using assms(1) by (rule run_cycles_Suc)
  show ?thesis
  proof (cases "run_checks L (ws ! i) (config_file ?d) (state_file ?d)")
    case (Inl x)
    with nxt have "?d' = ?d" by (simp add: next_disk_def)
    with Inl assms show ?thesis by simp
  next
    case (Inr rc)
    obtain results c where rc: "rc = (results, c)" by (cases rc)
    with Inr nxt have st: "state_file ?d' = state c" by (simp add: next_disk_def)
    from Inr rc have run: "run_checks L (ws ! i) (config_file ?d) (state_file ?d) = Inr (results, c)"
      by simp
    from run_checks_keeps_swapped_from [OF run assms(2,3)] st run
    show ?thesis by auto
  qed
qed

theorem swapped_from_never_overwritten_witness:
  "0 < length [down_world] \<and>
   state_file (run_cycles demo_lib [down_world] swapped_disk ! 0) solidot =
     Some (demo_entry 3 (Some primary_url)) \<and>
   swapped_from (demo_entry 3 (Some primary_url)) = Some primary_url \<and>
   (\<exists>e'. state_file (run_cycles demo_lib [down_world] swapped_disk ! Suc 0) solidot = Some e' \<and>
      swapped_from e' = Some primary_url \<and> consecutive_fails e' = 4) \<and>
   (\<exists>c. run_checks demo_lib down_world (config_file swapped_disk) (state_file swapped_disk) =
      Inr ([(solidot, failure (Unreachable (str ''URLError'')))], c) \<and>
      requests c = [] \<and> swapped c = [] \<and> reverted c = [])"
proof -
  let ?e = "demo_entry 3 (Some primary_url)"
  let ?c = "commit solidot
          (update_entry (clock down_world) (failure (Unreachable (str ''URLError''))) ?e,
           demo_cycle (demo_doc (str ''rss_feeds'') mirror_url) ?e)"
  have a: "0 < length [down_world]" by simp
  have b: "state_file (run_cycles demo_lib [down_world] swapped_disk ! 0) solidot = Some ?e"
    by (simp add: swapped_disk_def)
  have c: "swapped_from ?e = Some primary_url" by (simp add: demo_entry_def)
  have run: "run_checks demo_lib ([down_world] ! 0)
       (config_file (run_cycles demo_lib [down_world] swapped_disk ! 0))
       (state_file (run_cycles demo_lib [down_world] swapped_disk ! 0)) =
     Inr ([(solidot, failure (Unreachable (str ''URLError'')))], ?c)"
    using down_run_swapped by simp
  have logs: "requests ?c = [] \<and> swapped ?c = [] \<and> reverted ?c = []" by simp
  have ev: "\<nexists>cur. (solidot, cur, primary_url) \<in> set (reverted ?c)" by simp
  have bad: "\<not> ok (failure (Unreachable (str ''URLError'')))" by (simp add: failure_def)
  from swapped_from_never_overwritten [OF a b c] run ev bad
  have "\<exists>e'. state_file (run_cycles demo_lib [down_world] swapped_disk ! Suc 0) solidot = Some e' \<and>
      swapped_from e' = Some primary_url \<and> consecutive_fails e' = consecutive_fails ?e + 1"
    by (auto simp del: run_cycles.simps)
  then have "\<exists>e'. state_file (run_cycles demo_lib [down_world] swapped_disk ! Suc 0) solidot = Some e' \<and>
      swapped_from e' = Some primary_url \<and> consecutive_fails e' = 4"
    by (simp add: demo_entry_def)
  with a b c down_run_swapped logs show ?thesis by blast
qed

text \<open>
  C3. In one run of the loop body for a source: a call of \<open>swap_url_in_config\<close> by the
  auto-revert branch is made only for this source and only when its result is \<open>ok\<close>, its
  \<open>swapped_from\<close> is set, the URL the loaded config has for it differs from
  \<open>swapped_from\<close>, and \<open>check_source\<close> called on \<open>swapped_from\<close> itself returned an \<open>ok\<close>
  result; \<open>reverted\<close> grows or \<open>swapped_from\<close> is cleared only when that call was made and
  returned \<open>True\<close>; and when the probe of the original URL does not return an \<open>ok\<close> result,
  an \<open>ok\<close> result of the live URL changes neither the config file, nor \<open>reverted\<close>, nor
  \<open>swapped_from\<close>.
\<close>

theorem revert_only_after_original_probe:
  assumes run: "process_result L E cfg now_bjt (name, res) c = Inr c'"
  shows "(requests c' = requests c @ [Revert n current_url original_url] \<longrightarrow>
            n = name \<and> ok res \<and>
            swapped_from (state_get (state c) name) = Some original_url \<and>
            get_current_url cfg name = Some current_url \<and> current_url \<noteq> original_url \<and>
            (\<exists>probe. check_source L E name original_url (str ''rss'') DEFAULT_MAX_AGE_HOURS = Inr probe \<and>
                     ok probe)) \<and>
         (reverted c' \<noteq> reverted c \<or>
          swapped_from (state_get (state c') name) \<noteq> swapped_from (state_get (state c) name) \<and>
          swapped_from (state_get (state c') name) = None \<longrightarrow>
            (\<exists>cur orig. requests c' = requests c @ [Revert name cur orig] \<and>
               fst (swap_url_in_config cur orig (cfg_text c)) \<and>
               reverted c' = reverted c @ [(name, cur, orig)] \<and>
               swapped_from (state_get (state c') name) = None)) \<and>
         (ok res \<and> swapped_from (state_get (state c) name) = Some original_url \<and>
          (\<forall>probe. check_source L E name original_url (str ''rss'') DEFAULT_MAX_AGE_HOURS = Inr probe \<longrightarrow>
                   \<not> ok probe) \<longrightarrow>
            requests c' = requests c \<and> reverted c' = reverted c \<and> cfg_text c' = cfg_text c \<and>
            swapped_from (state_get (state c') name) = Some original_url)"
proof (intro conjI)
  show "requests c' = requests c @ [Revert n current_url original_url] \<longrightarrow>
            n = name \<and> ok res \<and>
            swapped_from (state_get (state c) name) = Some original_url \<and>
            get_current_url cfg name = Some current_url \<and> current_url \<noteq> original_url \<and>
            (\<exists>probe. check_source L E name original_url (str ''rss'') DEFAULT_MAX_AGE_HOURS = Inr probe \<and>
                     ok probe)"
    using run by (cases rule: process_result_cases) auto
  show "reverted c' \<noteq> reverted c \<or>
          swapped_from (state_get (state c') name) \<noteq> swapped_from (state_get (state c) name) \<and>
          swapped_from (state_get (state c') name) = None \<longrightarrow>
            (\<exists>cur orig. requests c' = requests c @ [Revert name cur orig] \<and>
               fst (swap_url_in_config cur orig (cfg_text c)) \<and>
               reverted c' = reverted c @ [(name, cur, orig)] \<and>
               swapped_from (state_get (state c') name) = None)"
    using run by (cases rule: process_result_cases) (auto split: if_splits)
  show "ok res \<and> swapped_from (state_get (state c) name) = Some original_url \<and>
          (\<forall>probe. check_source L E name original_url (str ''rss'') DEFAULT_MAX_AGE_HOURS = Inr probe \<longrightarrow>
                   \<not> ok probe) \<longrightarrow>
            requests c' = requests c \<and> reverted c' = reverted c \<and> cfg_text c' = cfg_text c \<and>
            swapped_from (state_get (state c') name) = Some original_url"
    using run by (cases rule: process_result_cases) auto
qed

theorem revert_only_after_original_probe_witness:
  "\<exists>c'. process_result demo_lib (demo_env (all_up demo_feed_body) 1672653600)
       (demo_rss_config mirror_url) (str ''2023-01-02 18:00 BJT'')
       (solidot, \<lparr>ok = True, error = None, article_count = 1, newest_age_hours = Some 2\<rparr>)
       (demo_cycle (demo_doc (str ''rss_feeds'') mirror_url) (demo_entry 0 (Some primary_url))) =
       Inr c' \<and>
     requests c' = [Revert solidot mirror_url primary_url] \<and>
     swapped_from (state_get (state (demo_cycle (demo_doc (str ''rss_feeds'') mirror_url)
        (demo_entry 0 (Some primary_url)))) solidot) = Some primary_url \<and>
     get_current_url (demo_rss_config mirror_url) solidot = Some mirror_url \<and>
     mirror_url \<noteq> primary_url \<and>
     (\<exists>probe. check_source demo_lib (demo_env (all_up demo_feed_body) 1672653600) solidot
         primary_url (str ''rss'') DEFAULT_MAX_AGE_HOURS = Inr probe \<and> ok probe)"
proof -
  let ?E = "demo_env (all_up demo_feed_body) 1672653600"
  let ?res = "\<lparr>ok = True, error = None, article_count = 1, newest_age_hours = Some 2\<rparr>"
  let ?c = "demo_cycle (demo_doc (str ''rss_feeds'') mirror_url) (demo_entry 0 (Some primary_url))"
  let ?e = "update_entry (str ''2023-01-02 18:00 BJT'') ?res (demo_entry 0 (Some primary_url))"
  let ?probe = "\<lparr>ok = True, error = None, article_count = 1, newest_age_hours = Some 2\<rparr>"
  obtain c' where run: "process_result demo_lib ?E (demo_rss_config mirror_url)
      (str ''2023-01-02 18:00 BJT'') (solidot, ?res) ?c = Inr c'"
    using process_result_returns by blast
  have probe: "check_source demo_lib ?E solidot primary_url (str ''rss'') DEFAULT_MAX_AGE_HOURS = Inr ?probe"
    by (simp add: check_feed_body freshness_demo DEFAULT_MAX_AGE_HOURS_def)
  have sf: "swapped_from ?e = Some primary_url" by (simp add: demo_entry_def)
  from auto_revert_request [OF _ sf primary_not_empty(1) get_current_url_rss primary_not_empty(2,3) probe,
      of ?res ?c]
  have "auto_revert demo_lib ?E (demo_rss_config mirror_url) solidot ?res ?e ?c =
      Inr (if fst (swap_url_in_config mirror_url primary_url (cfg_text ?c))
           then ?e\<lparr>swapped_from := None\<rparr> else ?e,
           ?c\<lparr>cfg_text := snd (swap_url_in_config mirror_url primary_url (cfg_text ?c)),
              requests := requests ?c @ [Revert solidot mirror_url primary_url],
              reverted := (if fst (swap_url_in_config mirror_url primary_url (cfg_text ?c))
                           then reverted ?c @ [(solidot, mirror_url, primary_url)]
                           else reverted ?c)\<rparr>)"
    by simp
  with run have req: "requests c' = requests ?c @ [Revert solidot mirror_url primary_url]"
    by (auto simp: process_result_ok)
  from revert_only_after_original_probe [OF run, of solidot mirror_url primary_url] req run
  show ?thesis by auto
qed



text \<open>
  C5. For every task list with distinct source names, whatever the order in which the
  checks finish: \<open>results\<close> has exactly one item per task and no name twice, and under the
  name of each task it holds the outcome of that task's own check, which is the result
  \<open>check_source\<close> returned when it returned one, and the synthetic failure
  (\<open>ok = False\<close>, error \<open>exception: ...\<close>, no articles, no age) of that task alone when
  \<open>check_source\<close> raised; the other tasks have their results all the same.
\<close>

theorem parallel_check_one_result_per_source:
  assumes "distinct (map fst tasks)"
  shows "length (parallel_check L envs finish tasks) = length tasks \<and>
     distinct (map fst (parallel_check L envs finish tasks)) \<and>
     (\<forall>i<length tasks.
        map_of (parallel_check L envs finish tasks) (fst (tasks ! i)) =
          Some (harvest (run_task L (envs i) (tasks ! i))) \<and>
        (\<forall>res. run_task L (envs i) (tasks ! i) = Inr res \<longrightarrow>
           map_of (parallel_check L envs finish tasks) (fst (tasks ! i)) = Some res) \<and>
        (\<forall>x. run_task L (envs i) (tasks ! i) = Inl x \<longrightarrow>
           map_of (parallel_check L envs finish tasks) (fst (tasks ! i)) =
             Some \<lparr>ok = False, error = Some (Exception_error x), article_count = 0,
                   newest_age_hours = None\<rparr>))"
proof -
  let ?n = "length tasks"
  let ?key = "\<lambda>i. fst (tasks ! i)"
  let ?val = "\<lambda>i. harvest (run_task L (envs i) (tasks ! i))"
  let ?rs = "parallel_check L envs finish tasks"
  have rs: "?rs = fold (\<lambda>i rs. AList.update (?key i) (?val i) rs) (as_completed finish ?n) []"
    by (simp add: parallel_check_def)
  have inj: "inj_on ?key {0..<?n}"
  proof (rule inj_onI)
    fix i j assume "i \<in> {0..<?n}" "j \<in> {0..<?n}" "?key i = ?key j"
    then have bounds: "i < length (map fst tasks)" "j < length (map fst tasks)"
      and same: "map fst tasks ! i = map fst tasks ! j"
      by simp_all
    from nth_eq_iff_index_eq [OF assms bounds] same show "i = j" by blast
  qed
  have dist: "distinct (map fst ?rs)"
    unfolding rs by (rule fold_update_distinct) simp
  have keys: "fst ` set ?rs = ?key ` {0..<?n}"
    unfolding rs by (simp add: fold_update_keys as_completed_perm)
  have "card (set (map fst ?rs)) = length (map fst ?rs)"
    using dist by (rule distinct_card)
  then have "length ?rs = card (fst ` set ?rs)" by simp
  also have "\<dots> = card (?key ` {0..<?n})" using keys by simp
  also have "\<dots> = ?n" using inj by (simp add: card_image)
  finally have len: "length ?rs = ?n" .
  have look: "map_of ?rs (?key i) = Some (?val i)" if "i < ?n" for i
    unfolding rs using inj that by (intro fold_update_lookup) (simp_all add: as_completed_perm)
  have each: "map_of ?rs (?key i) = Some (?val i) \<and>
        (\<forall>res. run_task L (envs i) (tasks ! i) = Inr res \<longrightarrow> map_of ?rs (?key i) = Some res) \<and>
        (\<forall>x. run_task L (envs i) (tasks ! i) = Inl x \<longrightarrow>
           map_of ?rs (?key i) =
             Some \<lparr>ok = False, error = Some (Exception_error x), article_count = 0,
                   newest_age_hours = None\<rparr>)" if "i < ?n" for i
    unfolding look [OF that] by (simp add: harvest_def)
  from len dist each show ?thesis by blast
qed

theorem parallel_check_one_result_per_source_witness:
  "distinct (map fst demo_tasks) \<and>
   length (parallel_check demo_lib demo_task_env (\<lambda>i. 1 - i) demo_tasks) = 2 \<and>
   map_of (parallel_check demo_lib demo_task_env (\<lambda>i. 1 - i) demo_tasks) (str ''Sina'') =
     Some \<lparr>ok = False, error = Some (Exception_error (AttributeError TList)), article_count = 0,
           newest_age_hours = None\<rparr> \<and>
   map_of (parallel_check demo_lib demo_task_env (\<lambda>i. 1 - i) demo_tasks) solidot =
     Some \<lparr>ok = True, error = None, article_count = 1, newest_age_hours = Some 2\<rparr>"
proof -
  have r0: "run_task demo_lib (demo_task_env 0) (demo_tasks ! 0) = Inl (AttributeError TList)"
    by (simp add: demo_tasks_nth run_task_def demo_task_env_def check_array_body)
  have r1: "run_task demo_lib (demo_task_env (Suc 0)) (demo_tasks ! Suc 0) =
      Inr \<lparr>ok = True, error = None, article_count = 1, newest_age_hours = Some 2\<rparr>"
    by (simp add: demo_tasks_nth run_task_def demo_task_env_def check_feed_body freshness_demo)
  note inst = parallel_check_one_result_per_source [OF demo_tasks_distinct,
      of demo_lib demo_task_env "\<lambda>i. 1 - i"]
  from inst have len: "length (parallel_check demo_lib demo_task_env (\<lambda>i. 1 - i) demo_tasks) = 2"
    by (simp add: demo_tasks_nth)
  from inst r0 have a: "map_of (parallel_check demo_lib demo_task_env (\<lambda>i. 1 - i) demo_tasks)
      (fst (demo_tasks ! 0)) =
     Some \<lparr>ok = False, error = Some (Exception_error (AttributeError TList)), article_count = 0,
           newest_age_hours = None\<rparr>"
    by (simp add: demo_tasks_nth(3) harvest_def)
  from inst r1 have b: "map_of (parallel_check demo_lib demo_task_env (\<lambda>i. 1 - i) demo_tasks)
      (fst (demo_tasks ! Suc 0)) =
     Some \<lparr>ok = True, error = None, article_count = 1, newest_age_hours = Some 2\<rparr>"
    by (simp add: demo_tasks_nth(3) harvest_def)
  from demo_tasks_distinct len a b show ?thesis by (simp add: demo_tasks_nth)
qed





text \<open>
  C9. When a source's result is \<open>ok\<close>, the source is swapped, and its URL in the loaded
  config differs from \<open>swapped_from\<close>, the probe of the original URL is
  \<open>check_source(name, original_url, "rss", DEFAULT_MAX_AGE_HOURS)\<close>, whatever the config
  declares: a source listed under \<open>sina_api\<close> is scheduled with type \<open>json\<close> and its own
  threshold, yet a non-empty body of its original URL is parsed as XML and judged against
  72 hours, and the revert call is made exactly when that XML check is \<open>ok\<close>; in particular
  no revert is requested and \<open>swapped_from\<close> stays when the body is not XML. There is such a
  case in which the original URL passes the \<open>json\<close> check with the source's threshold:
  the revert gate fails although the original endpoint has recovered.
\<close>

theorem revert_probe_ignores_kind_and_threshold:
  "(process_result L E cfg now_bjt (name, res) c = Inr c' \<and> ok res \<and>
    swapped_from (state_get (state c) name) = Some original_url \<and> original_url \<noteq> [] \<and>
    get_current_url cfg name = Some current_url \<and> current_url \<noteq> [] \<and>
    current_url \<noteq> original_url \<and> urlopen E original_url = Inr raw \<and> raw \<noteq> [] \<longrightarrow>
      check_source L E name original_url (str ''rss'') DEFAULT_MAX_AGE_HOURS =
        Inr (check_xml L (time_now E) raw DEFAULT_MAX_AGE_HOURS) \<and>
      (\<forall>src \<in> set (sina_api cfg).
         (src_name src, src_url src, str ''json'', max_age_of src) \<in> set (build_tasks cfg)) \<and>
      (ok (check_xml L (time_now E) raw DEFAULT_MAX_AGE_HOURS) \<longrightarrow>
         requests c' = requests c @ [Revert name current_url original_url]) \<and>
      (\<not> ok (check_xml L (time_now E) raw DEFAULT_MAX_AGE_HOURS) \<longrightarrow>
         requests c' = requests c \<and> reverted c' = reverted c \<and> cfg_text c' = cfg_text c \<and>
         swapped_from (state_get (state c') name) = Some original_url) \<and>
      (xml_fromstring L raw = None \<longrightarrow>
         requests c' = requests c \<and> reverted c' = reverted c \<and> cfg_text c' = cfg_text c \<and>
         swapped_from (state_get (state c') name) = Some original_url)) \<and>
   (\<exists>(L0 :: rat pylib) E0 cfg0 now0 name0 res0 c0 c1 src original r.
      src \<in> set (sina_api cfg0) \<and> src_name src = name0 \<and>
      process_result L0 E0 cfg0 now0 (name0, res0) c0 = Inr c1 \<and> ok res0 \<and>
      swapped_from (state_get (state c0) name0) = Some original \<and>
      get_current_url cfg0 name0 = Some (src_url src) \<and> src_url src \<noteq> original \<and>
      check_source L0 E0 name0 original (str ''json'') (max_age_of src) = Inr r \<and> ok r \<and>
      requests c1 = requests c0 \<and> reverted c1 = reverted c0 \<and> cfg_text c1 = cfg_text c0 \<and>
      swapped_from (state_get (state c1) name0) = Some original)"
proof (rule conjI)
  show "process_result L E cfg now_bjt (name, res) c = Inr c' \<and> ok res \<and>
    swapped_from (state_get (state c) name) = Some original_url \<and> original_url \<noteq> [] \<and>
    get_current_url cfg name = Some current_url \<and> current_url \<noteq> [] \<and>
    current_url \<noteq> original_url \<and> urlopen E original_url = Inr raw \<and> raw \<noteq> [] \<longrightarrow>
      check_source L E name original_url (str ''rss'') DEFAULT_MAX_AGE_HOURS =
        Inr (check_xml L (time_now E) raw DEFAULT_MAX_AGE_HOURS) \<and>
      (\<forall>src \<in> set (sina_api cfg).
         (src_name src, src_url src, str ''json'', max_age_of src) \<in> set (build_tasks cfg)) \<and>
      (ok (check_xml L (time_now E) raw DEFAULT_MAX_AGE_HOURS) \<longrightarrow>
         requests c' = requests c @ [Revert name current_url original_url]) \<and>
      (\<not> ok (check_xml L (time_now E) raw DEFAULT_MAX_AGE_HOURS) \<longrightarrow>
         requests c' = requests c \<and> reverted c' = reverted c \<and> cfg_text c' = cfg_text c \<and>
         swapped_from (state_get (state c') name) = Some original_url) \<and>
      (xml_fromstring L raw = None \<longrightarrow>
         requests c' = requests c \<and> reverted c' = reverted c \<and> cfg_text c' = cfg_text c \<and>
         swapped_from (state_get (state c') name) = Some original_url)"
  proof
    assume h: "process_result L E cfg now_bjt (name, res) c = Inr c' \<and> ok res \<and>
      swapped_from (state_get (state c) name) = Some original_url \<and> original_url \<noteq> [] \<and>
      get_current_url cfg name = Some current_url \<and> current_url \<noteq> [] \<and>
      current_url \<noteq> original_url \<and> urlopen E original_url = Inr raw \<and> raw \<noteq> []"
    then have run: "process_result L E cfg now_bjt (name, res) c = Inr c'" and ok: "ok res"
      and sw: "swapped_from (state_get (state c) name) = Some original_url" "original_url \<noteq> []"
      and cur: "get_current_url cfg name = Some current_url" "current_url \<noteq> []"
               "current_url \<noteq> original_url"
      and body: "urlopen E original_url = Inr raw" "raw \<noteq> []"
      by simp_all
    let ?probe = "check_xml L (time_now E) raw DEFAULT_MAX_AGE_HOURS"
    let ?e = "update_entry now_bjt res (state_get (state c) name)"
    let ?r = "swap_url_in_config current_url original_url (cfg_text c)"
    have tasks: "\<forall>src \<in> set (sina_api cfg).
         (src_name src, src_url src, str ''json'', max_age_of src) \<in> set (build_tasks cfg)"
      by (auto simp: build_tasks_def)
    have probe: "check_source L E name original_url (str ''rss'') DEFAULT_MAX_AGE_HOURS = Inr ?probe"
      using body by (simp add: check_source_rss)
    have sf: "swapped_from ?e = Some original_url" using sw by simp
    have no_xml: "xml_fromstring L raw = None \<Longrightarrow> \<not> ok ?probe"
      by (simp add: check_xml_def failure_def)
    have yes: "requests c' = requests c @ [Revert name current_url original_url]" if "ok ?probe"
    proof -
      from auto_revert_request [OF ok sf sw(2) cur probe that, of c] run ok
      have "c' = commit name
         (if fst ?r then ?e\<lparr>swapped_from := None\<rparr> else ?e,
          c\<lparr>cfg_text := snd ?r,
            requests := requests c @ [Revert name current_url original_url],
            reverted := (if fst ?r then reverted c @ [(name, current_url, original_url)]
                         else reverted c)\<rparr>)"
        by (simp add: process_result_ok)
      then show ?thesis by simp
    qed
    have no: "requests c' = requests c \<and> reverted c' = reverted c \<and> cfg_text c' = cfg_text c \<and>
          swapped_from (state_get (state c') name) = Some original_url" if "\<not> ok ?probe"
    proof -
      have "auto_revert L E cfg name res ?e c = Inr (?e, c)"
        by (rule auto_revert_probe_fails) (use sw probe that in simp)
      with run ok sw show ?thesis by (auto simp: process_result_ok)
    qed
    from tasks probe yes no no_xml
    show "check_source L E name original_url (str ''rss'') DEFAULT_MAX_AGE_HOURS = Inr ?probe \<and>
      (\<forall>src \<in> set (sina_api cfg).
         (src_name src, src_url src, str ''json'', max_age_of src) \<in> set (build_tasks cfg)) \<and>
      (ok ?probe \<longrightarrow> requests c' = requests c @ [Revert name current_url original_url]) \<and>
      (\<not> ok ?probe \<longrightarrow>
         requests c' = requests c \<and> reverted c' = reverted c \<and> cfg_text c' = cfg_text c \<and>
         swapped_from (state_get (state c') name) = Some original_url) \<and>
      (xml_fromstring L raw = None \<longrightarrow>
         requests c' = requests c \<and> reverted c' = reverted c \<and> cfg_text c' = cfg_text c \<and>
         swapped_from (state_get (state c') name) = Some original_url)"
      by blast
  qed
next
  let ?E = "demo_env (all_up demo_api_body) 1672650000"
  let ?res = "\<lparr>ok = True, error = None, article_count = 1, newest_age_hours = Some 1\<rparr>"
  let ?c = "demo_cycle (demo_doc (str ''sina_api'') mirror_url) (demo_entry 0 (Some primary_url))"
  let ?src = "\<lparr>src_name = solidot, src_url = mirror_url, src_max_age_hours = Some 24\<rparr>"
  let ?c1 = "commit solidot (update_entry [] ?res (demo_entry 0 (Some primary_url)), ?c)"
  have "?src \<in> set (sina_api (demo_api_config mirror_url)) \<and> src_name ?src = solidot \<and>
      process_result demo_lib ?E (demo_api_config mirror_url) [] (solidot, ?res) ?c = Inr ?c1 \<and>
      ok ?res \<and> swapped_from (state_get (state ?c) solidot) = Some primary_url \<and>
      get_current_url (demo_api_config mirror_url) solidot = Some (src_url ?src) \<and>
      src_url ?src \<noteq> primary_url \<and>
      check_source demo_lib ?E solidot primary_url (str ''json'') (max_age_of ?src) = Inr ?res \<and>
      ok ?res \<and> requests ?c1 = requests ?c \<and> reverted ?c1 = reverted ?c \<and>
      cfg_text ?c1 = cfg_text ?c \<and>
      swapped_from (state_get (state ?c1) solidot) = Some primary_url"
  proof -
    have "check_source demo_lib ?E solidot primary_url (str ''json'') (max_age_of ?src) = Inr ?res"
      by (simp add: check_api_body freshness_demo max_age_of_def)
    moreover have "swapped_from (state_get (state ?c1) solidot) = Some primary_url"
      "swapped_from (state_get (state ?c) solidot) = Some primary_url"
      by (simp_all add: demo_entry_def)
    ultimately show ?thesis
      using api_config_source healthy_json_original_not_reverted [of "[]"]
        get_current_url_api [of mirror_url] primary_not_empty(3)
      by simp
  qed
  then show "\<exists>(L0 :: rat pylib) E0 cfg0 now0 name0 res0 c0 c1 src original r.
      src \<in> set (sina_api cfg0) \<and> src_name src = name0 \<and>
      process_result L0 E0 cfg0 now0 (name0, res0) c0 = Inr c1 \<and> ok res0 \<and>
      swapped_from (state_get (state c0) name0) = Some original \<and>
      get_current_url cfg0 name0 = Some (src_url src) \<and> src_url src \<noteq> original \<and>
      check_source L0 E0 name0 original (str ''json'') (max_age_of src) = Inr r \<and> ok r \<and>
      requests c1 = requests c0 \<and> reverted c1 = reverted c0 \<and> cfg_text c1 = cfg_text c0 \<and>
      swapped_from (state_get (state c1) name0) = Some original"
    by blast
qed

theorem revert_probe_ignores_kind_and_threshold_witness:
  "(solidot, mirror_url, str ''json'', 24) \<in> set (build_tasks (demo_api_config mirror_url)) \<and>
   check_source demo_lib (demo_env (all_up demo_api_body) 1672650000) solidot primary_url
     (str ''json'') 24 =
     Inr \<lparr>ok = True, error = None, article_count = 1, newest_age_hours = Some 1\<rparr> \<and>
   check_source demo_lib (demo_env (all_up demo_api_body) 1672650000) solidot primary_url
     (str ''rss'') DEFAULT_MAX_AGE_HOURS = Inr (failure XML_parse_error) \<and>
   (\<exists>c'. process_result demo_lib (demo_env (all_up demo_api_body) 1672650000)
       (demo_api_config mirror_url) (str ''2023-01-02 17:00 BJT'')
       (solidot, \<lparr>ok = True, error = None, article_count = 1, newest_age_hours = Some 1\<rparr>)
       (demo_cycle (demo_doc (str ''sina_api'') mirror_url) (demo_entry 0 (Some primary_url))) =
       Inr c' \<and>
     requests c' = [] \<and> reverted c' = [] \<and>
     cfg_text c' = demo_doc (str ''sina_api'') mirror_url \<and>
     swapped_from (state_get (state c') solidot) = Some primary_url)"
proof -
  let ?E = "demo_env (all_up demo_api_body) 1672650000"
  let ?res = "\<lparr>ok = True, error = None, article_count = 1, newest_age_hours = Some 1\<rparr>"
  let ?c = "demo_cycle (demo_doc (str ''sina_api'') mirror_url) (demo_entry 0 (Some primary_url))"
  obtain c' where run: "process_result demo_lib ?E (demo_api_config mirror_url)
      (str ''2023-01-02 17:00 BJT'') (solidot, ?res) ?c = Inr c'"
    using process_result_returns by blast
  have sf: "swapped_from (state_get (state ?c) solidot) = Some primary_url"
    by (simp add: demo_entry_def)
  have body: "urlopen ?E primary_url = Inr demo_api_body"
    by (simp add: demo_env_def all_up_def)
  have healthy: "check_source demo_lib ?E solidot primary_url (str ''json'') 24 = Inr ?res"
    by (simp add: check_api_body freshness_demo)
  have hyps: "process_result demo_lib ?E (demo_api_config mirror_url)
      (str ''2023-01-02 17:00 BJT'') (solidot, ?res) ?c = Inr c' \<and> ok ?res \<and>
    swapped_from (state_get (state ?c) solidot) = Some primary_url \<and> primary_url \<noteq> [] \<and>
    get_current_url (demo_api_config mirror_url) solidot = Some mirror_url \<and> mirror_url \<noteq> [] \<and>
    mirror_url \<noteq> primary_url \<and> urlopen ?E primary_url = Inr demo_api_body \<and>
    demo_api_body \<noteq> []"
    using run sf body primary_not_empty get_current_url_api [of mirror_url] demo_bodies_differ(2)
    by simp
  note inst = revert_probe_ignores_kind_and_threshold [THEN conjunct1, rule_format, OF hyps]
  from inst api_config_source
  have "(solidot, mirror_url, str ''json'', 24) \<in> set (build_tasks (demo_api_config mirror_url))"
    by (fastforce simp: max_age_of_def)
  moreover from inst have "check_source demo_lib ?E solidot primary_url (str ''rss'')
      DEFAULT_MAX_AGE_HOURS = Inr (failure XML_parse_error)"
    by (simp add: check_xml_def demo_xml)
  moreover from inst have "requests c' = [] \<and> reverted c' = [] \<and>
     cfg_text c' = demo_doc (str ''sina_api'') mirror_url \<and>
     swapped_from (state_get (state c') solidot) = Some primary_url"
    by (simp add: demo_xml)
  ultimately show ?thesis using run healthy by blast
qed

text \<open>
  C10. For a source checked as \<open>json\<close>, when the body is not empty and decodes to a JSON
  value that is not an object (an array, for one), \<open>check_source\<close> does not return: the
  \<open>.get\<close> on the decoded value raises \<open>AttributeError\<close>, outside the \<open>try\<close> around
  \<open>json.loads\<close>. The scheduler turns it into its synthetic \<open>exception: ...\<close> failure, which
  is not the \<open>JSON parse error\<close> result.
\<close>

theorem non_object_json_raises:
  assumes "urlopen E url = Inr raw" and "raw \<noteq> []"
    and "json_loads L raw = Some data" and "\<forall>kvs. data \<noteq> JObj kvs"
  shows "check_source L E name url (str ''json'') max_age_hours = Inl (AttributeError (type_of data)) \<and>
     harvest (check_source L E name url (str ''json'') max_age_hours) =
       \<lparr>ok = False, error = Some (Exception_error (AttributeError (type_of data))),
         article_count = 0, newest_age_hours = None\<rparr> \<and>
     harvest (check_source L E name url (str ''json'') max_age_hours) \<noteq> failure JSON_parse_error"
  using assms
  by (simp add: check_source_def check_json_def articles_of_def py_get_not_dict harvest_def
      failure_def)

theorem non_object_json_raises_witness:
  "urlopen (demo_env (all_up ''[]'') 1672934400) primary_url = Inr ''[]'' \<and>
   json_loads demo_lib ''[]'' = Some (JArr []) \<and>
   check_source demo_lib (demo_env (all_up ''[]'') 1672934400) solidot primary_url (str ''json'') 72 =
     Inl (AttributeError TList) \<and>
   harvest (check_source demo_lib (demo_env (all_up ''[]'') 1672934400) solidot primary_url
              (str ''json'') 72) =
     \<lparr>ok = False, error = Some (Exception_error (AttributeError TList)), article_count = 0,
       newest_age_hours = None\<rparr>"
proof -
  have a: "urlopen (demo_env (all_up ''[]'') 1672934400) primary_url = Inr ''[]''"
    by (simp add: demo_env_def all_up_def)
  have b: "''[]'' \<noteq> ([] :: bytes)" by simp
  have c: "json_loads demo_lib ''[]'' = Some (JArr [])"
    by (simp add: demo_lib_def demo_bodies_differ)
  have d: "\<forall>kvs. JArr [] \<noteq> JObj kvs" by simp
  from non_object_json_raises [OF a b c d, of solidot 72, unfolded type_of.simps] a c
  show ?thesis by blast
qed

end
